theory Spec2Isabelle
  imports Main "HOL-Library.Multiset"
begin

section \<open>Python values, exceptions and ordered dictionaries\<close>

text \<open>
  The values that the YAML definitions and the evaluator exchange.  \<open>PObj\<close> is an opaque
  object (a parsed binary, an executable, a callable), known only by a handle.
  Dictionaries keep their insertion order, as Python's do, so they are association lists
  with at most one pair per key.
\<close>

datatype pyval =
    PNone
  | PBool bool
  | PInt int
  | PStr string
  | PList "pyval list"
  | PDict "(string \<times> pyval) list"
  | PObj nat

type_synonym pydict = "(string \<times> pyval) list"

text \<open>
  The messages of the errors that the modelled code raises itself, and the exception
  classes.  All of them are subclasses of Python's \<open>Exception\<close>; \<open>ForbiddenNodeError\<close>
  is the evaluator's error for a syntax node outside the allow-list.
\<close>

datatype message =
    Result_shall_be_defined pyval
  | List_of_expressions_not_supported
  | Modifier_does_not_exist string
  | Cannot_produce_more_than_256_distinct_bytes
  | Default_not_allowed string
  | Other_message string

datatype exn =
    ForbiddenNodeError
  | NameError
  | ValueError message
  | KeyError string
  | TypeError
  | AttributeError
  | IndexError
  | OtherError string

text \<open>
  The dictionary operations the code uses: \<^verbatim>\<open>d[k] = v\<close> (\<open>setitem\<close>: the value is replaced
  in place when the key is there, the pair is appended otherwise), \<^verbatim>\<open>d.setdefault(k, v)\<close>,
  \<^verbatim>\<open>d.pop(k, default)\<close> (the dictionary it leaves) and \<^verbatim>\<open>d.update(e)\<close>.  \<^verbatim>\<open>d.get(k)\<close> is
  \<open>map_of d k\<close>.
\<close>

fun setitem :: "'k \<Rightarrow> 'v \<Rightarrow> ('k \<times> 'v) list \<Rightarrow> ('k \<times> 'v) list" where
  "setitem k v [] = [(k, v)]"
| "setitem k v ((k', v') # d) = (if k' = k then (k', v) # d else (k', v') # setitem k v d)"

fun setdefault :: "'k \<Rightarrow> 'v \<Rightarrow> ('k \<times> 'v) list \<Rightarrow> ('k \<times> 'v) list" where
  "setdefault k v [] = [(k, v)]"
| "setdefault k v ((k', v') # d) = (if k' = k then (k', v') # d else (k', v') # setdefault k v d)"

definition pop :: "'k \<Rightarrow> ('k \<times> 'v) list \<Rightarrow> ('k \<times> 'v) list" where
  "pop k d = filter (\<lambda>(k', v'). k' \<noteq> k) d"

definition update :: "('k \<times> 'v) list \<Rightarrow> ('k \<times> 'v) list \<Rightarrow> ('k \<times> 'v) list" where
  "update d e = fold (\<lambda>(k, v). setitem k v) e d"

text \<open>Python's truth value of an object, as \<^verbatim>\<open>if expr:\<close> and \<^verbatim>\<open>not x\<close> read it.\<close>

fun truthy :: "pyval \<Rightarrow> bool" where
  "truthy PNone = False"
| "truthy (PBool b) = b"
| "truthy (PInt i) = (i \<noteq> 0)"
| "truthy (PStr s) = (s \<noteq> [])"
| "truthy (PList xs) = (xs \<noteq> [])"
| "truthy (PDict d) = (d \<noteq> [])"
| "truthy (PObj h) = True"

section \<open>Unique random bytes (\<open>_randbytes\<close>)\<close>

text \<open>
  \<^verbatim>\<open>random.choice(seq)\<close> returns \<^verbatim>\<open>seq[randbelow(len(seq))]\<close> and raises \<open>IndexError\<close> on
  an empty sequence.  The random source is the function \<open>rnd\<close>: its value at \<open>i\<close> is the
  raw number drawn in iteration \<open>i\<close> of the loop.
\<close>

definition choice :: "nat \<Rightarrow> 'a list \<Rightarrow> exn + 'a" where
  "choice r xs = (if xs = [] then Inl IndexError else Inr (xs ! (r mod length xs)))"

text \<open>
  The loop \<^verbatim>\<open>for i in range(n)\<close> over the state \<open>(s, alphabet)\<close>: a byte is drawn from
  the alphabet, appended to \<open>s\<close> and removed from the alphabet.
\<close>

fun randbytes_loop :: "(nat \<Rightarrow> nat) \<Rightarrow> nat list \<Rightarrow> nat list \<times> nat list \<Rightarrow> exn + nat list \<times> nat list" where
  "randbytes_loop rnd [] (s, alphabet) = Inr (s, alphabet)"
| "randbytes_loop rnd (i # is) (s, alphabet) =
     (case choice (rnd i) alphabet of
        Inl e \<Rightarrow> Inl e
      | Inr c \<Rightarrow> randbytes_loop rnd is (s @ [c], remove1 c alphabet))"

text \<open>
  \<open>sys_randbytes\<close> stands for the library's \<^verbatim>\<open>random.randbytes\<close>, used when \<open>unique\<close> is
  false.  The size is a Python integer; \<^verbatim>\<open>range(n)\<close> is empty for a negative \<open>n\<close>.
\<close>

definition randbytes :: "(int \<Rightarrow> exn + nat list) \<Rightarrow> (nat \<Rightarrow> nat) \<Rightarrow> int \<Rightarrow> bool \<Rightarrow> exn + nat list" where
  "randbytes sys_randbytes rnd n unique =
     (if \<not> unique then sys_randbytes n
      else if n > 256 then Inl (ValueError Cannot_produce_more_than_256_distinct_bytes)
      else (case randbytes_loop rnd [0..<nat n] ([], [0..<256]) of
              Inl e \<Rightarrow> Inl e
            | Inr (s, alphabet) \<Rightarrow> Inr s))"

section \<open>Item definitions (\<open>dict2\<close>)\<close>

text \<open>
  \<^verbatim>\<open>dict2.__init__(self, idict, **kwargs)\<close>.  The object is its own attribute dictionary
  (\<^verbatim>\<open>self.__dict__ = self\<close>), so an item definition is a \<open>pydict\<close>.  It starts empty; the
  three \<open>setdefault\<close> calls and the class's \<open>_fields\<close> fill it, then \<open>idict\<close> and the
  keyword arguments overwrite it, and the result is compared with the sentinel.
  \<open>UNDEF_RESULT\<close> is a constant that the module takes from the builtins; it is the
  parameter \<open>undef_result\<close> here, and the class attribute \<open>_fields\<close> is a parameter too.  The logger popped from both
  dictionaries is kept in a class attribute that nothing modelled here reads.
\<close>

definition dict2_init :: "pyval \<Rightarrow> pydict \<Rightarrow> pydict \<Rightarrow> pydict \<Rightarrow> exn + pydict" where
  "dict2_init undef_result cfields idict kwargs =
     (let self = setdefault ''name'' undef_result [];
          self = setdefault ''description'' (PStr []) self
      in case map_of self ''name'' of
           None \<Rightarrow> Inl (KeyError ''name'')
         | Some n \<Rightarrow>
             (let self = setdefault ''result'' n self;
                  self = fold (\<lambda>(f, v). setdefault f v) cfields self;
                  kwargs = pop ''logger'' kwargs;
                  idict = pop ''logger'' idict;
                  self = update (update self idict) kwargs
              in case (map_of self ''result'', map_of self ''name'') of
                   (Some r, Some n') \<Rightarrow>
                     if r = undef_result then Inl (ValueError (Result_shall_be_defined n'))
                     else Inr self
                 | _ \<Rightarrow> Inl AttributeError))"

text \<open>The class attribute \<open>_fields\<close> of \<open>Modifier\<close>.\<close>

definition Modifier_fields :: pydict where
  "Modifier_fields = [(''apply'', PBool True), (''loop'', PNone), (''grid'', PNone)]"

text \<open>
  What a key of the new item resolves to: the keyword argument, else the entry of the
  mapping, else the sentinel (for \<open>name\<close> and \<open>result\<close>, the two keys whose default is
  the sentinel).
\<close>

definition resolved :: "pyval \<Rightarrow> pydict \<Rightarrow> pydict \<Rightarrow> string \<Rightarrow> pyval" where
  "resolved undef_result idict kwargs k =
     (case map_of kwargs k of
        Some v \<Rightarrow> v
      | None \<Rightarrow> (case map_of idict k of Some v \<Rightarrow> v | None \<Rightarrow> undef_result))"

section \<open>Evaluation of an item (\<open>dict2.__call__\<close>, \<open>Modifier.__call__\<close>)\<close>

text \<open>
  What the code calls outside this repository's sources, with the state \<open>'w\<close> of
  everything those calls can read or change (files, parsed binaries, the random
  generator) passed along:
  \<^item> \<open>eval2 expr d\<close>: the library's evaluator on an expression and the bindings \<open>d\<close>, with
    the allow-list of syntax nodes; it raises \<open>ForbiddenNodeError\<close> on a node outside it;
  \<^item> \<open>call r kwargs\<close>: the Python call \<^verbatim>\<open>r(**kwargs)\<close>;
  \<^item> \<open>items_of v\<close>: how \<^verbatim>\<open>dict.update\<close> reads an argument that is not a dictionary;
  \<^item> \<open>result_bound\<close>: whether the name \<open>result\<close> is bound in the module's globals or the
    builtins (\<open>_exec\<close> reads it in the message of its last handler, where neither
    \<open>_exec\<close> nor \<open>__call__\<close> binds it);
  \<^item> \<open>lief_parse\<close>, \<open>parser_data\<close>, \<open>module_names\<close>: the bindings that the pipeline takes
    from a fresh parse of the target, from the live parser, and from the modifier
    modules;
  \<^item> \<open>commit parser\<close>: \<^verbatim>\<open>parser.build()\<close>;
  \<^item> \<open>load path\<close>: opening the YAML source and \<^verbatim>\<open>yaml.load\<close>.
  Log output is not modelled.
\<close>

record 'w ext =
  eval2 :: "pyval \<Rightarrow> pydict \<Rightarrow> 'w \<Rightarrow> (exn + pyval) \<times> 'w"
  call :: "pyval \<Rightarrow> pydict \<Rightarrow> 'w \<Rightarrow> (exn + pyval) \<times> 'w"
  items_of :: "pyval \<Rightarrow> exn + pydict"
  result_bound :: bool
  lief_parse :: "string \<Rightarrow> 'w \<Rightarrow> (exn + pydict) \<times> 'w"
  parser_data :: "pyval \<Rightarrow> 'w \<Rightarrow> (exn + pydict) \<times> 'w"
  module_names :: "string \<Rightarrow> pydict"
  commit :: "pyval \<Rightarrow> 'w \<Rightarrow> exn option \<times> 'w"
  load :: "string \<Rightarrow> 'w \<Rightarrow> (exn + pyval) \<times> 'w"

text \<open>
  \<open>_exec(expr)\<close>.  The three handlers of the first \<^verbatim>\<open>try\<close> (for \<open>ForbiddenNodeError\<close>, for
  \<open>NameError\<close>, for any other \<open>Exception\<close>) differ in what they log, the last two only
  when \<open>silent\<close> is false, and all three end in \<^verbatim>\<open>raise\<close>.  Without keyword parameters the
  evaluated value is returned; otherwise it is called with them, and the handler of
  that call logs (unless \<open>silent\<close>) and falls off the end of the function, which
  returns \<open>None\<close>.
\<close>

definition dict2_exec :: "'w ext \<Rightarrow> bool \<Rightarrow> pydict \<Rightarrow> pydict \<Rightarrow> pyval \<Rightarrow> 'w \<Rightarrow> (exn + pyval) \<times> 'w" where
  "dict2_exec x silent d kwargs expr w =
     (case eval2 x expr d w of
        (Inl e, w') \<Rightarrow>
          (case e of
             ForbiddenNodeError \<Rightarrow> (Inl e, w')
           | NameError \<Rightarrow> (Inl e, w')
           | _ \<Rightarrow> (Inl e, w'))
      | (Inr r, w') \<Rightarrow>
          if length kwargs = 0 then (Inr r, w')
          else (case call x r kwargs w' of
                  (Inr v, w'') \<Rightarrow> (Inr v, w'')
                | (Inl e, w'') \<Rightarrow>
                    if \<not> silent \<and> \<not> result_bound x then (Inl NameError, w'')
                    else (Inr PNone, w'')))"

text \<open>The comprehension \<^verbatim>\<open>[_exec(result) for result in ...]\<close>: it stops at the first raise.\<close>

fun exec_all :: "'w ext \<Rightarrow> bool \<Rightarrow> pydict \<Rightarrow> pydict \<Rightarrow> pyval list \<Rightarrow> 'w \<Rightarrow> (exn + pyval list) \<times> 'w" where
  "exec_all x silent d kwargs [] w = (Inr [], w)"
| "exec_all x silent d kwargs (r # rs) w =
     (case dict2_exec x silent d kwargs r w of
        (Inl e, w') \<Rightarrow> (Inl e, w')
      | (Inr v, w') \<Rightarrow>
          (case exec_all x silent d kwargs rs w' of
             (Inl e, w'') \<Rightarrow> (Inl e, w'')
           | (Inr vs, w'') \<Rightarrow> (Inr (v # vs), w'')))"

text \<open>
  \<^verbatim>\<open>dict2.__call__(self, data, silent=False, **kwargs)\<close>.  The bindings are the fixed helper
  functions and \<open>data\<close>; the helpers are the evaluator's business, so \<open>eval2\<close> is given
  \<open>data\<close>.  \<open>multi_expr\<close> is the class attribute \<open>_multi_expr\<close>.  A tuple of results is
  returned as a list.
\<close>

definition dict2_call :: "'w ext \<Rightarrow> bool \<Rightarrow> pydict \<Rightarrow> pydict \<Rightarrow> bool \<Rightarrow> pydict \<Rightarrow> 'w \<Rightarrow> (exn + pyval) \<times> 'w" where
  "dict2_call x multi_expr self data silent kwargs w =
     (case (case map_of self ''parameters'' of
              None \<Rightarrow> Inr kwargs
            | Some (PDict ps) \<Rightarrow> Inr (update kwargs ps)
            | Some v \<Rightarrow> (case items_of x v of Inl e \<Rightarrow> Inl e | Inr ps \<Rightarrow> Inr (update kwargs ps))) of
        Inl e \<Rightarrow> (Inl e, w)
      | Inr kwargs \<Rightarrow>
          (case map_of self ''result'' of
             None \<Rightarrow> (Inl AttributeError, w)
           | Some (PList rs) \<Rightarrow>
               if \<not> multi_expr then (Inl (ValueError List_of_expressions_not_supported), w)
               else (case exec_all x silent data kwargs rs w of
                       (Inl e, w') \<Rightarrow> (Inl e, w')
                     | (Inr retv, w') \<Rightarrow>
                         (Inr (if length retv = 1 then hd retv else PList retv), w'))
           | Some r \<Rightarrow> dict2_exec x silent data kwargs r w))"

text \<open>
  \<^verbatim>\<open>Modifier.__call__(self, d, parser=None, **kw)\<close>.  With a \<open>loop\<close> count the evaluation
  is repeated, each round taking the parser that the last one returned; \<^verbatim>\<open>range\<close> of a
  count that is not positive is empty, and then the parser given is returned as it is.
  \<open>Modifier\<close> does not set \<open>_multi_expr\<close>.
\<close>

fun Modifier_loop :: "'w ext \<Rightarrow> pydict \<Rightarrow> pydict \<Rightarrow> pydict \<Rightarrow> nat \<Rightarrow> pyval \<Rightarrow> 'w \<Rightarrow> (exn + pyval) \<times> 'w" where
  "Modifier_loop x self d kw 0 parser w = (Inr parser, w)"
| "Modifier_loop x self d kw (Suc n) parser w =
     (case dict2_call x False self d False ((''parser'', parser) # kw) w of
        (Inl e, w') \<Rightarrow> (Inl e, w')
      | (Inr p, w') \<Rightarrow> Modifier_loop x self d kw n p w')"

definition Modifier_call :: "'w ext \<Rightarrow> pydict \<Rightarrow> pydict \<Rightarrow> pyval \<Rightarrow> pydict \<Rightarrow> 'w \<Rightarrow> (exn + pyval) \<times> 'w" where
  "Modifier_call x self d parser kw w =
     (case map_of self ''loop'' of
        None \<Rightarrow> (Inl AttributeError, w)
      | Some PNone \<Rightarrow> dict2_call x False self d False ((''parser'', parser) # kw) w
      | Some (PInt n) \<Rightarrow> Modifier_loop x self d kw (nat n) parser w
      | Some (PBool b) \<Rightarrow> Modifier_loop x self d kw (if b then 1 else 0) parser w
      | Some v \<Rightarrow> (Inl TypeError, w))"

section \<open>The registry of modifiers\<close>

text \<open>
  The registry maps a category (an executable format) to the modifiers of that
  category by name; both levels keep their insertion order.  The table \<open>FORMATS\<close> and
  the function \<open>expand_formats\<close> are defined outside the sources at hand, and \<open>str\<close> is
  Python's; with the sentinel of \<open>dict2\<close> they make up the environment \<open>env\<close>.
\<close>

type_synonym registry = "(string \<times> (string \<times> pydict) list) list"

record env =
  UNDEF_RESULT :: pyval
  FORMATS_keys :: "string list"
  expand_formats :: "string \<Rightarrow> string list"
  str :: "pyval \<Rightarrow> string"

text \<open>
  \<^verbatim>\<open>registry.setdefault(c2, {}); registry[c2][m.name] = m\<close>.  The keyword argument
  \<open>name\<close> is the last to fill the item, so \<open>m.name\<close> is the name of the entry.
\<close>

definition register :: "string \<Rightarrow> pydict \<Rightarrow> string \<Rightarrow> registry \<Rightarrow> registry" where
  "register name m c2 reg =
     (let reg = setdefault c2 [] reg
      in case map_of reg c2 of
           None \<Rightarrow> reg
         | Some entries \<Rightarrow> setitem c2 (setitem name m entries) reg)"

text \<open>
  The loops over the categories \<open>c\<close> of one entry, in the order of the three lists:
  an expression for \<open>c\<close> makes a \<open>Modifier\<close>, stored under every format that \<open>c\<close>
  expands to.  A \<open>Modifier\<close> that cannot be constructed ends the build, and the
  registry stays as far as it was filled.
\<close>

fun build_categories :: "env \<Rightarrow> pyval \<Rightarrow> string \<Rightarrow> pydict \<Rightarrow> pyval \<Rightarrow> string list \<Rightarrow> registry \<Rightarrow> exn option \<times> registry" where
  "build_categories E parent name params r [] reg = (None, reg)"
| "build_categories E parent name params r (c # cs) reg =
     (let expr = (case r of
                    PDict rd \<Rightarrow> (case map_of rd c of None \<Rightarrow> PNone | Some e \<Rightarrow> e)
                  | _ \<Rightarrow> PStr (str E r))
      in if truthy expr then
           (case dict2_init (UNDEF_RESULT E) Modifier_fields params
                   [(''name'', PStr name), (''parent'', parent), (''result'', expr)] of
              Inl e \<Rightarrow> (Some e, reg)
            | Inr m \<Rightarrow>
                build_categories E parent name params r cs
                  (fold (register name m) (expand_formats E c) reg))
         else build_categories E parent name params r cs reg)"

text \<open>
  The loop over the entries \<open>name, params\<close> of the YAML document: the defaults fill the
  parameters, \<open>result\<close> is taken out of them, and the categories are gone through.
\<close>

fun build_items :: "env \<Rightarrow> pyval \<Rightarrow> pyval \<Rightarrow> pydict \<Rightarrow> registry \<Rightarrow> exn option \<times> registry" where
  "build_items E parent data_all [] reg = (None, reg)"
| "build_items E parent data_all ((name, params) # rest) reg =
     (case data_all of
        PDict defaults \<Rightarrow>
          (case params of
             PDict ps \<Rightarrow>
               (let ps = fold (\<lambda>(k, v). setdefault k v) defaults ps;
                    r = (case map_of ps ''result'' of None \<Rightarrow> PDict [] | Some v \<Rightarrow> v);
                    ps = pop ''result'' ps
                in case build_categories E parent name ps r
                          (concat [expand_formats E ''All'', tl (FORMATS_keys E), [''All'']]) reg of
                     (Some e, reg') \<Rightarrow> (Some e, reg')
                   | (None, reg') \<Rightarrow> build_items E parent data_all rest reg')
           | PList l \<Rightarrow> (Some (if defaults = [] then TypeError else AttributeError), reg)
           | _ \<Rightarrow> (Some AttributeError, reg))
      | _ \<Rightarrow> (Some AttributeError, reg))"

text \<open>
  Lines 43 to 59 of \<open>Modifiers.__init__\<close>, on the loaded document (\<^verbatim>\<open>yaml.load(f) or {}\<close>).
\<close>

definition build_registry :: "env \<Rightarrow> pyval \<Rightarrow> pyval \<Rightarrow> exn option \<times> registry" where
  "build_registry E parent doc =
     (case (if truthy doc then doc else PDict []) of
        PDict modifiers \<Rightarrow>
          (let data_all = (case map_of modifiers ''defaults'' of None \<Rightarrow> PDict [] | Some v \<Rightarrow> v);
               modifiers = pop ''defaults'' modifiers
           in build_items E parent data_all modifiers [])
      | PList l \<Rightarrow> (Some TypeError, [])
      | _ \<Rightarrow> (Some AttributeError, []))"

text \<open>
  The class \<open>Modifiers\<close> holds the source path and the registry, \<open>None\<close> until it is
  built.  Lines 39 to 59: nothing is done when the registry is there; otherwise the
  source is read, the registry is set to the empty dictionary and filled.
\<close>

record modifiers_class =
  source :: string
  registry :: "registry option"

definition init_registry :: "'w ext \<Rightarrow> env \<Rightarrow> pyval \<Rightarrow> modifiers_class \<Rightarrow> 'w \<Rightarrow> exn option \<times> modifiers_class \<times> 'w" where
  "init_registry x E self cls w =
     (case registry cls of
        Some reg \<Rightarrow> (None, cls, w)
      | None \<Rightarrow>
          (case load x (source cls) w of
             (Inl e, w') \<Rightarrow> (Some e, cls, w')
           | (Inr doc, w') \<Rightarrow>
               (case build_registry E self doc of
                  (err, reg) \<Rightarrow> (err, cls\<lparr>registry := Some reg\<rparr>, w'))))"

section \<open>The source path of a class (\<open>MetaBase.source\<close>)\<close>

text \<open>
  The setter of the class-level property \<open>source\<close>: the path given, or the configured
  default when none is given, is normalised by \<open>Path(..., expand=True)\<close> (the function
  \<open>expand\<close>); the attribute \<open>_source\<close> may not exist yet.  The registry is whatever the
  class keeps there.
\<close>

record 'r metabase_class =
  source_attr :: "string option"
  registry_attr :: "'r option"

definition requested_path :: "(string \<Rightarrow> string) \<Rightarrow> string \<Rightarrow> string option \<Rightarrow> string" where
  "requested_path expand config_default path =
     expand (case path of
               None \<Rightarrow> config_default
             | Some s \<Rightarrow> if s = [] then config_default else s)"

definition source_setter :: "(string \<Rightarrow> string) \<Rightarrow> string \<Rightarrow> string option \<Rightarrow> 'r metabase_class \<Rightarrow> 'r metabase_class" where
  "source_setter expand config_default path cls =
     (let p = requested_path expand config_default path
      in if source_attr cls \<noteq> None \<and> source_attr cls = Some p then cls
         else cls\<lparr>source_attr := Some p, registry_attr := None\<rparr>)"

text \<open>The getter: a class that has no \<open>_source\<close> yet takes the default first.\<close>

definition source_getter :: "(string \<Rightarrow> string) \<Rightarrow> string \<Rightarrow> 'r metabase_class \<Rightarrow> string option \<times> 'r metabase_class" where
  "source_getter expand config_default cls =
     (let cls = (if source_attr cls = None then source_setter expand config_default None cls else cls)
      in (source_attr cls, cls))"

text \<open>
  Every definition of the registry keeps the instance that built it in its field
  \<open>parent\<close> (the keyword argument \<^verbatim>\<open>parent=self\<close>).  \<open>reparent p reg\<close> is the registry \<open>reg\<close>
  with that one field set to \<open>p\<close> in every definition; it is used to compare the
  registries that two instances build.
\<close>

definition reparent :: "pyval \<Rightarrow> registry \<Rightarrow> registry" where
  "reparent p reg = map (apsnd (map (apsnd (setitem ''parent'' p)))) reg"

section \<open>The pipeline (\<open>Modifiers.__init__\<close>)\<close>

text \<open>
  The target: its format, the path that is parsed first, and the object itself as it
  is handed to the modifiers.
\<close>

record executable =
  format :: string
  destination :: string
  obj :: pyval

text \<open>
  Lines 61 to 68: every name of a copy of the selection is looked up among the
  modifiers of the target's format (\<open>known\<close>); an unknown name is removed from the
  caller's list when \<open>warn\<close> is set and raises otherwise.  \<^verbatim>\<open>list.remove\<close> removes the
  first occurrence.
\<close>

fun check_select :: "string list \<Rightarrow> bool \<Rightarrow> string list \<Rightarrow> string list \<Rightarrow> exn + string list" where
  "check_select known warn [] select = Inr select"
| "check_select known warn (name # names) select =
     (if name \<notin> set known then
        (if warn then check_select known warn names (remove1 name select)
         else Inl (ValueError (Modifier_does_not_exist name)))
      else check_select known warn names select)"

text \<open>The test of line 72; \<open>True\<close> means that the modifier is passed over.\<close>

definition skipped :: "string list option \<Rightarrow> string \<Rightarrow> pydict \<Rightarrow> exn + bool" where
  "skipped select name modifier =
     (case select of
        None \<Rightarrow> (case map_of modifier ''apply'' of
                   None \<Rightarrow> Inl AttributeError
                 | Some a \<Rightarrow> Inr (\<not> truthy a))
      | Some sel \<Rightarrow> Inr (name \<notin> set sel))"

text \<open>
  Lines 75 to 88: the bindings of one evaluation, from a fresh parse of the target
  while there is no parser, from the parser otherwise, then the names of the modifier
  modules and the modifiers of the format themselves.
\<close>

definition bindings :: "'w ext \<Rightarrow> executable \<Rightarrow> pyval \<Rightarrow> (string \<times> pydict) list \<Rightarrow> 'w \<Rightarrow> (exn + pydict) \<times> 'w" where
  "bindings x exe parser entries w =
     (case (if parser = PNone then lief_parse x (destination exe) w else parser_data x parser w) of
        (Inl e, w') \<Rightarrow> (Inl e, w')
      | (Inr d, w') \<Rightarrow>
          (Inr (update (update d (module_names x (format exe)))
                  (map (\<lambda>(name, m). (name, PDict m)) entries)), w'))"

text \<open>
  The loop of lines 71 to 95 over the modifiers of the format, on the state
  \<open>(parser, applied, w)\<close>: the parser, the list of names that the object is, and the
  outside world.  The bindings are built outside the \<^verbatim>\<open>try\<close>, so a raise there ends
  the run; a raise of the modifier is caught (\<^verbatim>\<open>except Exception\<close>) and the loop goes on.
\<close>

fun apply_modifiers :: "'w ext \<Rightarrow> executable \<Rightarrow> (string \<times> pydict) list \<Rightarrow> string list option
    \<Rightarrow> (string \<times> pydict) list \<Rightarrow> pyval \<times> string list \<times> 'w \<Rightarrow> exn option \<times> pyval \<times> string list \<times> 'w" where
  "apply_modifiers x exe entries select [] st = (None, st)"
| "apply_modifiers x exe entries select ((name, modifier) # rest) (parser, applied, w) =
     (case skipped select name modifier of
        Inl e \<Rightarrow> (Some e, parser, applied, w)
      | Inr True \<Rightarrow> apply_modifiers x exe entries select rest (parser, applied, w)
      | Inr False \<Rightarrow>
          (case bindings x exe parser entries w of
             (Inl e, w1) \<Rightarrow> (Some e, parser, applied, w1)
           | (Inr d, w1) \<Rightarrow>
               (case Modifier_call x modifier d parser [(''executable'', obj exe)] w1 of
                  (Inr p, w2) \<Rightarrow>
                    apply_modifiers x exe entries select rest (p, applied @ [name], w2)
                | (Inl e, w2) \<Rightarrow>
                    apply_modifiers x exe entries select rest (parser, applied, w2))))"

text \<open>
  What a run leaves: the exception that ended it, if any; the list of applied names;
  the caller's selection list; how often \<^verbatim>\<open>parser.build()\<close> was invoked; the parser at
  the end; the class and the outside world.
\<close>

record 'w outcome =
  raised :: "exn option"
  applied :: "string list"
  selection :: "string list option"
  builds :: nat
  last_parser :: pyval
  class_state :: modifiers_class
  world :: 'w

text \<open>
  Lines 97 and 98, after the loop: the parser that is left, if there is one, is built.
  A raise in the loop has left \<open>__init__\<close> before.
\<close>

definition finish :: "'w ext \<Rightarrow> string list option \<Rightarrow> modifiers_class
    \<Rightarrow> exn option \<times> pyval \<times> string list \<times> 'w \<Rightarrow> 'w outcome" where
  "finish x select cls r =
     (case r of
        (Some e, parser, names, w') \<Rightarrow>
          \<lparr>raised = Some e, applied = names, selection = select,
           builds = 0, last_parser = parser, class_state = cls, world = w'\<rparr>
      | (None, parser, names, w') \<Rightarrow>
          if parser \<noteq> PNone then
            (case commit x parser w' of
               (err, w'') \<Rightarrow>
                 \<lparr>raised = err, applied = names, selection = select,
                  builds = 1, last_parser = parser, class_state = cls, world = w''\<rparr>)
          else \<lparr>raised = None, applied = names, selection = select,
                builds = 0, last_parser = parser, class_state = cls, world = w'\<rparr>)"

text \<open>Lines 69 to 98, for a target that is there: the loop from no parser, then the build.\<close>

definition run_target :: "'w ext \<Rightarrow> executable \<Rightarrow> string list option \<Rightarrow> modifiers_class \<Rightarrow> registry \<Rightarrow> 'w \<Rightarrow> 'w outcome" where
  "run_target x exe select cls reg w =
     (case map_of reg (format exe) of
        None \<Rightarrow> \<lparr>raised = Some (KeyError (format exe)), applied = [], selection = select,
                  builds = 0, last_parser = PNone, class_state = cls, world = w\<rparr>
      | Some entries \<Rightarrow>
          finish x select cls (apply_modifiers x exe entries select entries (PNone, [], w)))"

text \<open>
  \<^verbatim>\<open>Modifiers.__init__(self, exe, select=None, warn=False)\<close>.  \<open>self\<close> is the new object as
  the modifiers get it for \<open>parent\<close>.  A missing target has no \<open>format\<close> to look the
  selection up with, and a format that the registry does not have is a \<open>KeyError\<close>.
\<close>

definition Modifiers_init :: "'w ext \<Rightarrow> env \<Rightarrow> pyval \<Rightarrow> modifiers_class \<Rightarrow> executable option
    \<Rightarrow> string list option \<Rightarrow> bool \<Rightarrow> 'w \<Rightarrow> 'w outcome" where
  "Modifiers_init x E self cls exe select warn w =
     (case init_registry x E self cls w of
        (Some e, cls, w) \<Rightarrow>
          \<lparr>raised = Some e, applied = [], selection = select, builds = 0,
           last_parser = PNone, class_state = cls, world = w\<rparr>
      | (None, cls, w) \<Rightarrow>
          (case registry cls of
             None \<Rightarrow> \<lparr>raised = Some TypeError, applied = [], selection = select, builds = 0,
                       last_parser = PNone, class_state = cls, world = w\<rparr>
           | Some reg \<Rightarrow>
               (case (case select of
                        None \<Rightarrow> Inr select
                      | Some [] \<Rightarrow> Inr select
                      | Some names \<Rightarrow>
                          (case exe of
                             None \<Rightarrow> Inl AttributeError
                           | Some target \<Rightarrow>
                               (case map_of reg (format target) of
                                  None \<Rightarrow> Inl (KeyError (format target))
                                | Some entries \<Rightarrow>
                                    (case check_select (map fst entries) warn names names of
                                       Inl e \<Rightarrow> Inl e
                                     | Inr names' \<Rightarrow> Inr (Some names'))))) of
                  Inl e \<Rightarrow> \<lparr>raised = Some e, applied = [], selection = select, builds = 0,
                             last_parser = PNone, class_state = cls, world = w\<rparr>
                | Inr select \<Rightarrow>
                    (case exe of
                       None \<Rightarrow> \<lparr>raised = None, applied = [], selection = select, builds = 0,
                                 last_parser = PNone, class_state = cls, world = w\<rparr>
                     | Some target \<Rightarrow> run_target x target select cls reg w))))"

text \<open>
  What the caller can see of a run: the exception, the applied names, the selection
  list, the number of builds and the outside world.
\<close>

definition summary :: "'w outcome \<Rightarrow> exn option \<times> string list \<times> string list option \<times> nat \<times> 'w" where
  "summary r = (raised r, applied r, selection r, builds r, world r)"


section \<open>Variants from a template (\<open>MetaItem.source\<close>)\<close>

text \<open>
  What a \<^verbatim>\<open>for\<close> loop or \<^verbatim>\<open>itertools.product\<close> gets out of a value: the elements of a
  list, the characters of a string, the keys of a dictionary; the other values are not
  iterable.
\<close>

fun py_iter :: "pyval \<Rightarrow> exn + pyval list" where
  "py_iter (PList xs) = Inr xs"
| "py_iter (PStr s) = Inr (map (\<lambda>c. PStr [c]) s)"
| "py_iter (PDict d) = Inr (map (\<lambda>(k, v). PStr k) d)"
| "py_iter v = Inl TypeError"

fun iter_all :: "pyval list \<Rightarrow> exn + pyval list list" where
  "iter_all [] = Inr []"
| "iter_all (v # vs) =
     (case py_iter v of
        Inl e \<Rightarrow> Inl e
      | Inr xs \<Rightarrow> (case iter_all vs of Inl e \<Rightarrow> Inl e | Inr xss \<Rightarrow> Inr (xs # xss)))"

text \<open>\<^verbatim>\<open>sep.join(xs)\<close> and \<^verbatim>\<open>k.startswith("_")\<close>.\<close>

fun join :: "string \<Rightarrow> string list \<Rightarrow> string" where
  "join sep [] = []"
| "join sep [x] = x"
| "join sep (x # y # ys) = x @ sep @ join sep (y # ys)"

definition startswith_underscore :: "string \<Rightarrow> bool" where
  "startswith_underscore k = (case k of [] \<Rightarrow> False | c # cs \<Rightarrow> c = CHR ''_'')"

text \<open>
  \<^verbatim>\<open>[template.pop(f"_{k}") for k in attrs]\<close>: the values taken out, and the template that
  is left.
\<close>

fun pop_attrs :: "string list \<Rightarrow> pydict \<Rightarrow> exn + pyval list \<times> pydict" where
  "pop_attrs [] template = Inr ([], template)"
| "pop_attrs (k # ks) template =
     (case map_of template (CHR ''_'' # k) of
        None \<Rightarrow> Inl (KeyError (CHR ''_'' # k))
      | Some v \<Rightarrow>
          (case pop_attrs ks (pop (CHR ''_'' # k) template) of
             Inl e \<Rightarrow> Inl e
           | Inr (vs, template') \<Rightarrow> Inr (v # vs, template')))"

text \<open>
  The body of the loop over the tuples of the product: the name of the variant is the
  name of the item and the values of the tuple, joined by dashes; a variant of that
  name is created from the template unless there is one; then the attributes of the
  tuple and the template fill what the variant does not set itself.  A variant that
  is not a dictionary has no \<open>setdefault\<close>, which shows when there is something to fill.
\<close>

definition vitem_of :: "(pyval \<Rightarrow> string) \<Rightarrow> string \<Rightarrow> pyval list \<Rightarrow> string" where
  "vitem_of str_of item values = join ''-'' (item # map str_of values)"

definition expand_tuple :: "(pyval \<Rightarrow> string) \<Rightarrow> string \<Rightarrow> string list \<Rightarrow> pydict \<Rightarrow> pydict \<Rightarrow> pyval list \<Rightarrow> exn + pydict" where
  "expand_tuple str_of item attrs template variants values =
     (let vitem = vitem_of str_of item values;
          variants = setdefault vitem (PDict template) variants
      in case map_of variants vitem of
           Some (PDict e) \<Rightarrow>
             Inr (setitem vitem
                    (PDict (fold (\<lambda>(k, v). setdefault k v) (zip attrs values @ template) e))
                    variants)
         | Some v \<Rightarrow> if zip attrs values @ template = [] then Inr variants else Inl AttributeError
         | None \<Rightarrow> Inl (KeyError vitem))"

fun expand_tuples :: "(pyval \<Rightarrow> string) \<Rightarrow> string \<Rightarrow> string list \<Rightarrow> pydict \<Rightarrow> pydict \<Rightarrow> pyval list list \<Rightarrow> exn + pydict" where
  "expand_tuples str_of item attrs template variants [] = Inr variants"
| "expand_tuples str_of item attrs template variants (values # rest) =
     (case expand_tuple str_of item attrs template variants values of
        Inl e \<Rightarrow> Inl e
      | Inr variants' \<Rightarrow> expand_tuples str_of item attrs template variants' rest)"

text \<open>
  Lines 419 to 431, for the entry \<open>item\<close> with the parameters \<open>data\<close>: the dictionary of
  variants that the classes are then created from, one for each key.  \<open>str_of\<close> is
  Python's \<open>str\<close>.  \<open>List.product_lists\<close> enumerates the tuples in the order of
  \<^verbatim>\<open>itertools.product\<close>, the last component running fastest.
\<close>

definition expand_variants :: "(pyval \<Rightarrow> string) \<Rightarrow> string \<Rightarrow> pydict \<Rightarrow> exn + pydict" where
  "expand_variants str_of item data =
     (case (case map_of data ''variants'' of None \<Rightarrow> PDict [] | Some v \<Rightarrow> v) of
        PDict variants \<Rightarrow>
          (case (case map_of variants ''_template'' of None \<Rightarrow> PDict [] | Some t \<Rightarrow> t) of
             PDict template \<Rightarrow>
               if length template > 0 then
                 (let attrs = map tl (filter startswith_underscore (map fst template))
                  in case pop_attrs attrs template of
                       Inl e \<Rightarrow> Inl e
                     | Inr (iterables, template') \<Rightarrow>
                         (case iter_all iterables of
                            Inl e \<Rightarrow> Inl e
                          | Inr its \<Rightarrow>
                              expand_tuples str_of item attrs template'
                                (pop ''_template'' variants) (product_lists its)))
               else Inr (pop ''_template'' variants)
           | PList l \<Rightarrow> if length l > 0 then Inl AttributeError else Inr (pop ''_template'' variants)
           | PStr s \<Rightarrow> if length s > 0 then Inl AttributeError else Inr (pop ''_template'' variants)
           | t \<Rightarrow> Inl TypeError)
      | PList l \<Rightarrow> Inl TypeError
      | v \<Rightarrow> Inl AttributeError)"

text \<open>
  The variants declared by name are dictionaries of parameters (what the YAML source gives
  when each variant is a mapping).
\<close>

fun is_dict :: "pyval \<Rightarrow> bool" where
  "is_dict (PDict e) = True"
| "is_dict v = False"

definition all_dicts :: "pydict \<Rightarrow> bool" where
  "all_dicts d = list_all is_dict (map snd d)"

section \<open>Defaults of a configuration (\<open>load_yaml_config\<close>, \<open>_set\<close>)\<close>

text \<open>
  \<^verbatim>\<open>config[name2].setdefault(default, v)\<close> in two steps: the entry is looked up and must
  have the method, then the value is set unless the entry has one.
\<close>

definition entry_of :: "string \<Rightarrow> pydict \<Rightarrow> exn + pydict" where
  "entry_of name2 config =
     (case map_of config name2 of
        None \<Rightarrow> Inl (KeyError name2)
      | Some (PDict e) \<Rightarrow> Inr e
      | Some v \<Rightarrow> Inl AttributeError)"

definition entry_setdefault :: "string \<Rightarrow> string \<Rightarrow> pyval \<Rightarrow> pydict \<Rightarrow> exn + pydict" where
  "entry_setdefault name2 dflt v config =
     (case entry_of name2 config of
        Inl e \<Rightarrow> Inl e
      | Inr e \<Rightarrow> Inr (setitem name2 (PDict (setdefault dflt v e)) config))"

text \<open>
  The loop over the names \<open>name2\<close> for one pattern.  \<open>search pattern name\<close> is
  \<^verbatim>\<open>re.search(pattern, name)\<close> as a truth value; it can raise.  With a boolean \<open>v\<close> every
  entry is given \<open>v\<close> or its opposite; the entry is looked up before the pattern is
  searched.  With another \<open>v\<close> only the matching entries are touched.
\<close>

fun match_names :: "(pyval \<Rightarrow> string \<Rightarrow> exn + bool) \<Rightarrow> string \<Rightarrow> pyval \<Rightarrow> pyval \<Rightarrow> string list \<Rightarrow> pydict \<Rightarrow> exn + pydict" where
  "match_names search dflt v pattern [] config = Inr config"
| "match_names search dflt v pattern (name2 # names) config =
     (case v of
        PBool b \<Rightarrow>
          (case entry_of name2 config of
             Inl e \<Rightarrow> Inl e
           | Inr entry \<Rightarrow>
               (case search pattern name2 of
                  Inl e \<Rightarrow> Inl e
                | Inr m \<Rightarrow>
                    (case entry_setdefault name2 dflt (PBool (if m then b else \<not> b)) config of
                       Inl e \<Rightarrow> Inl e
                     | Inr config' \<Rightarrow> match_names search dflt v pattern names config')))
      | _ \<Rightarrow>
          (case search pattern name2 of
             Inl e \<Rightarrow> Inl e
           | Inr m \<Rightarrow>
               if m then
                 (case entry_setdefault name2 dflt v config of
                    Inl e \<Rightarrow> Inl e
                  | Inr config' \<Rightarrow> match_names search dflt v pattern names config')
               else match_names search dflt v pattern names config))"

text \<open>The loop over the patterns of \<open>match\<close>, each going through all the names.\<close>

fun match_patterns :: "(pyval \<Rightarrow> string \<Rightarrow> exn + bool) \<Rightarrow> string \<Rightarrow> pyval \<Rightarrow> pyval list \<Rightarrow> pydict \<Rightarrow> exn + pydict" where
  "match_patterns search dflt v [] config = Inr config"
| "match_patterns search dflt v (pattern # patterns) config =
     (case match_names search dflt v pattern (map fst config) config of
        Inl e \<Rightarrow> Inl e
      | Inr config' \<Rightarrow> match_patterns search dflt v patterns config')"

text \<open>
  One default \<open>dflt, val\<close> (\<^verbatim>\<open>default, value\<close> in the source) while the entry \<open>pname\<close>
  is at its turn (lines 541 to 569).
  A dictionary is an advanced default when its keys, \<open>comment\<close> apart, are \<open>match\<close> and
  \<open>value\<close>, and is passed over otherwise; any other value is set in the entry at its
  turn unless the entry has one.
\<close>

definition apply_default :: "(pyval \<Rightarrow> string \<Rightarrow> exn + bool) \<Rightarrow> string list \<Rightarrow> string \<Rightarrow> string \<times> pyval \<Rightarrow> pydict \<Rightarrow> exn + pydict" where
  "apply_default search no_defaults pname dv config =
     (case dv of
        (dflt, val) \<Rightarrow>
          if dflt \<in> set no_defaults then Inl (ValueError (Default_not_allowed dflt))
          else (case val of
                  PDict d \<Rightarrow>
                    (let d = pop ''comment'' d
                     in if set (map fst d) = {''match'', ''value''} then
                          (case (map_of d ''value'', map_of d ''match'') of
                             (Some v, Some m) \<Rightarrow>
                               (case py_iter m of
                                  Inl e \<Rightarrow> Inl e
                                | Inr patterns \<Rightarrow> match_patterns search dflt v patterns config)
                           | _ \<Rightarrow> Inl (KeyError ''value''))
                        else Inr config)
                | _ \<Rightarrow> entry_setdefault pname dflt val config))"

fun apply_defaults :: "(pyval \<Rightarrow> string \<Rightarrow> exn + bool) \<Rightarrow> string list \<Rightarrow> string \<Rightarrow> pydict \<Rightarrow> pydict \<Rightarrow> exn + pydict" where
  "apply_defaults search no_defaults pname [] config = Inr config"
| "apply_defaults search no_defaults pname (dv # dvs) config =
     (case apply_default search no_defaults pname dv config of
        Inl e \<Rightarrow> Inl e
      | Inr config' \<Rightarrow> apply_defaults search no_defaults pname dvs config')"

text \<open>The loop over the entries of the configuration, by their names.\<close>

fun set_entries :: "(pyval \<Rightarrow> string \<Rightarrow> exn + bool) \<Rightarrow> string list \<Rightarrow> pydict \<Rightarrow> string list \<Rightarrow> pydict \<Rightarrow> exn + pydict" where
  "set_entries search no_defaults defaults [] config = Inr config"
| "set_entries search no_defaults defaults (pname # pnames) config =
     (case apply_defaults search no_defaults pname defaults config of
        Inl e \<Rightarrow> Inl e
      | Inr config' \<Rightarrow> set_entries search no_defaults defaults pnames config')"

text \<open>
  \<^verbatim>\<open>_set(config, defaults_=None)\<close> inside \<^verbatim>\<open>load_yaml_config(cfg, no_defaults, parse_defaults)\<close>:
  the defaults given are updated with the entry \<open>defaults\<close> of the configuration, which
  is taken out of it.  \<open>read_items\<close> is how \<^verbatim>\<open>dict.update\<close> reads an argument that is not a
  dictionary.
\<close>

definition set_defaults :: "(pyval \<Rightarrow> string \<Rightarrow> exn + bool) \<Rightarrow> (pyval \<Rightarrow> exn + pydict) \<Rightarrow> string list \<Rightarrow> bool
    \<Rightarrow> pydict \<Rightarrow> pydict option \<Rightarrow> exn + pydict" where
  "set_defaults search read_items no_defaults parse_defaults config defaults_opt =
     (if parse_defaults then
        (case (case map_of config ''defaults'' of
                 None \<Rightarrow> Inr []
               | Some (PDict d) \<Rightarrow> Inr d
               | Some v \<Rightarrow> read_items v) of
           Inl e \<Rightarrow> Inl e
         | Inr own \<Rightarrow>
             (let defaults = update (case defaults_opt of None \<Rightarrow> [] | Some d \<Rightarrow> d) own;
                  config = pop ''defaults'' config
              in set_entries search no_defaults defaults (map fst config) config))
      else Inr config)"

section \<open>An environment for the examples\<close>

text \<open>
  Modelled from the spec: the table \<open>FORMATS\<close> and \<open>expand_formats\<close> are not in the
  sources at hand.  The spec speaks of specific formats, of intermediate format
  classes and of the universal class \<open>All\<close>; the table below has these three levels,
  its first key is \<open>All\<close>, and a class expands to the specific formats under it, a
  specific format to itself.  The theorems about the registry take any table and any
  expansion; this one is for the examples.
\<close>

definition example_formats :: "(string \<times> string list) list" where
  "example_formats =
     [(''All'', [''ELF'', ''Mach-O'', ''MSDOS'', ''PE'']),
      (''ELF'', [''ELF32'', ''ELF64'']),
      (''Mach-O'', [''Mach-O32'', ''Mach-O64'', ''Mach-Ou'']),
      (''MSDOS'', [''MSDOS'']),
      (''PE'', [''.NET'', ''PE32'', ''PE64''])]"

definition expand_table :: "(string \<times> string list) list \<Rightarrow> string \<Rightarrow> string list" where
  "expand_table table c =
     (case map_of table c of
        None \<Rightarrow> [c]
      | Some subs \<Rightarrow> concat (map (\<lambda>s. case map_of table s of None \<Rightarrow> [s] | Some l \<Rightarrow> l) subs))"

text \<open>Python's \<open>str\<close> on the scalars of a YAML document (left open on the containers).\<close>

fun digits :: "nat \<Rightarrow> string" where
  "digits n = (if n < 10 then [''0123456789'' ! n] else digits (n div 10) @ [''0123456789'' ! (n mod 10)])"

fun scalar_str :: "pyval \<Rightarrow> string" where
  "scalar_str PNone = ''None''"
| "scalar_str (PBool b) = (if b then ''True'' else ''False'')"
| "scalar_str (PInt i) = (if i < 0 then CHR ''-'' # digits (nat (- i)) else digits (nat i))"
| "scalar_str (PStr s) = s"

definition example_env :: env where
  "example_env =
     \<lparr>UNDEF_RESULT = PStr ''undefined'',
      FORMATS_keys = map fst example_formats,
      expand_formats = expand_table example_formats,
      str = scalar_str\<rparr>"

text \<open>
  An outside world for the examples.  Its state is the trace of what was evaluated and
  built.  The evaluator knows five expressions: one with a forbidden node, one with an
  unbound name, a division by zero, a function that returns \<open>None\<close>, and (any other
  string) a function that returns a parser.  \<open>example_ext doc\<close> loads the document \<open>doc\<close>
  from every path.
\<close>

definition example_eval2 :: "pyval \<Rightarrow> pydict \<Rightarrow> string list \<Rightarrow> (exn + pyval) \<times> string list" where
  "example_eval2 expr d w =
     (case expr of
        PStr s \<Rightarrow>
          (if s = ''__import__(1)'' then Inl ForbiddenNodeError
           else if s = ''unbound'' then Inl NameError
           else if s = ''1 / 0'' then Inl (OtherError ''ZeroDivisionError'')
           else if s = ''lambda **kw: None'' then Inr (PObj 0)
           else Inr (PObj 1),
           w @ [s])
      | _ \<Rightarrow> (Inl TypeError, w))"

definition example_call :: "pyval \<Rightarrow> pydict \<Rightarrow> string list \<Rightarrow> (exn + pyval) \<times> string list" where
  "example_call r kwargs w =
     (case r of
        PObj h \<Rightarrow> if h = 0 then (Inr PNone, w) else if h = 1 then (Inr (PObj 2), w) else (Inl TypeError, w)
      | _ \<Rightarrow> (Inl TypeError, w))"

definition example_ext :: "pyval \<Rightarrow> string list ext" where
  "example_ext doc =
     \<lparr>eval2 = example_eval2,
      call = example_call,
      items_of = (\<lambda>v. Inl TypeError),
      result_bound = False,
      lief_parse = (\<lambda>path w. (Inr [(''sections'', PList [])], w)),
      parser_data = (\<lambda>parser w. (Inr [(''sections'', PList []), (''compute_checksum'', PObj 3)], w)),
      module_names = (\<lambda>fmt. []),
      commit = (\<lambda>parser w. (None, w @ [''build''])),
      load = (\<lambda>path w. (Inr doc, w))\<rparr>"

definition example_class :: modifiers_class where
  "example_class = \<lparr>source = ''modifiers.yml'', registry = None\<rparr>"

definition example_target :: executable where
  "example_target = \<lparr>format = ''PE32'', destination = ''/tmp/a.exe'', obj = PObj 9\<rparr>"

text \<open>
  A modifier as the registry builder makes it from an entry that gives only \<open>result\<close>,
  and a registry, as an earlier run has left it, with the modifiers of the format of
  the target.
\<close>

definition example_modifier :: "string \<Rightarrow> string \<Rightarrow> pydict" where
  "example_modifier name expr =
     [(''name'', PStr name), (''description'', PStr []), (''result'', PStr expr),
      (''apply'', PBool True), (''loop'', PNone), (''grid'', PNone), (''parent'', PObj 5)]"

definition example_built :: "(string \<times> string) list \<Rightarrow> modifiers_class" where
  "example_built entries =
     \<lparr>source = ''modifiers.yml'',
      registry = Some [(''PE32'', map (\<lambda>(name, expr). (name, example_modifier name expr)) entries)]\<rparr>"

text \<open>
  A search for the examples of patterns: \<^verbatim>\<open>re.search\<close> on the empty pattern, which
  matches every name, and on a caret followed by a literal text, which matches the
  names that begin with the text.  The other patterns are left out.
\<close>

definition example_search :: "pyval \<Rightarrow> string \<Rightarrow> exn + bool" where
  "example_search pattern name =
     (case pattern of
        PStr [] \<Rightarrow> Inr True
      | PStr (c # lit) \<Rightarrow>
          if c = CHR ''^'' then Inr (take (length lit) name = lit)
          else Inl (OtherError ''pattern outside the examples'')
      | _ \<Rightarrow> Inl TypeError)"

section \<open>Facts about the dictionary operations\<close>

lemma map_of_setitem: "map_of (setitem k v d) = (map_of d)(k \<mapsto> v)"
  by (induction d) (auto simp: fun_eq_iff)

lemma map_of_setdefault:
  "map_of (setdefault k v d) k' = (if k' = k \<and> map_of d k = None then Some v else map_of d k')"
  by (induction d) auto

lemma map_of_pop: "map_of (pop k d) k' = (if k' = k then None else map_of d k')"
  by (induction d) (auto simp: pop_def)

lemma map_of_update: "map_of (update d e) = map_of d ++ map_of (rev e)"
proof (induction e arbitrary: d)
  case Nil
  then show ?case by (simp add: update_def)
next
  case (Cons p e)
  obtain k v where p: "p = (k, v)" by (cases p)
  have "update d (p # e) = update (setitem k v d) e" by (simp add: update_def p)
  with Cons show ?case by (simp add: p map_of_setitem map_add_def fun_eq_iff split: option.splits)
qed

lemma map_of_rev_distinct: "distinct (map fst e) \<Longrightarrow> map_of (rev e) = map_of e"
  by (subst map_of_inject_set) (simp_all add: rev_map [symmetric])

lemma map_of_fold_setdefault_Some:
  "map_of d k = Some x \<Longrightarrow> map_of (fold (\<lambda>(f, v). setdefault f v) cfields d) k = Some x"
proof (induction cfields arbitrary: d)
  case Nil
  then show ?case by simp
next
  case (Cons p cfields)
  obtain f v where p: "p = (f, v)" by (cases p)
  from Cons.prems have "map_of (setdefault f v d) k = Some x"
    by (auto simp: map_of_setdefault)
  from Cons.IH [OF this] show ?case by (simp add: p)
qed

section \<open>Unique random bytes: correctness\<close>

lemma randbytes_loop_inv:
  assumes "distinct (s @ alphabet)" and "length is \<le> length alphabet"
  shows "\<exists>s' alphabet'. randbytes_loop rnd is (s, alphabet) = Inr (s', alphabet')
           \<and> length s' = length s + length is
           \<and> distinct (s' @ alphabet')
           \<and> set (s' @ alphabet') = set (s @ alphabet)"
  using assms
proof (induction "is" arbitrary: s alphabet)
  case Nil
  then show ?case by simp
next
  case (Cons i "is")
  from Cons.prems have ne: "alphabet \<noteq> []" by auto
  define c where "c = alphabet ! (rnd i mod length alphabet)"
  from ne have cin: "c \<in> set alphabet" by (simp add: c_def)
  have ch: "choice (rnd i) alphabet = Inr c" using ne by (simp add: choice_def c_def)
  from Cons.prems cin have d: "distinct ((s @ [c]) @ remove1 c alphabet)" by auto
  from Cons.prems cin have l: "length is \<le> length (remove1 c alphabet)"
    by (simp add: length_remove1)
  from Cons.IH [OF d l] obtain s' alphabet' where
    r: "randbytes_loop rnd is (s @ [c], remove1 c alphabet) = Inr (s', alphabet')"
    and len: "length s' = length (s @ [c]) + length is"
    and dis: "distinct (s' @ alphabet')"
    and st: "set (s' @ alphabet') = set ((s @ [c]) @ remove1 c alphabet)"
    by blast
  from Cons.prems cin have "set ((s @ [c]) @ remove1 c alphabet) = set (s @ alphabet)"
    by auto
  with r len dis st ch show ?case by simp
qed

text \<open>
  C9.  For a requested size \<open>n\<close> (a size: not negative), unique random-byte generation
  returns \<open>n\<close> pairwise distinct bytes when \<open>n \<le> 256\<close>, whatever the random draws are,
  and raises the error, returning no value, when \<open>n > 256\<close>.
\<close>

theorem randbytes_unique:
  assumes "0 \<le> n"
  shows "(n \<le> 256 \<longrightarrow> (\<exists>s. randbytes sr rnd n True = Inr s \<and> int (length s) = n
                              \<and> distinct s \<and> (\<forall>b \<in> set s. b < 256)))
       \<and> (256 < n \<longrightarrow> randbytes sr rnd n True
                          = Inl (ValueError Cannot_produce_more_than_256_distinct_bytes))"
proof (intro conjI impI)
  assume le: "n \<le> 256"
  have "distinct ([] @ [0..<256])" by simp
  moreover from le assms have "length [0..<nat n] \<le> length [0..<256::nat]" by simp
  ultimately obtain s' alphabet' where
    r: "randbytes_loop rnd [0..<nat n] ([], [0..<256]) = Inr (s', alphabet')"
    and len: "length s' = length ([]::nat list) + length [0..<nat n]"
    and dis: "distinct (s' @ alphabet')"
    and st: "set (s' @ alphabet') = set ([] @ [0..<256])"
    using randbytes_loop_inv by blast
  from st have "\<forall>b \<in> set s'. b < 256" by auto
  with r len dis le assms
  show "\<exists>s. randbytes sr rnd n True = Inr s \<and> int (length s) = n
            \<and> distinct s \<and> (\<forall>b \<in> set s. b < 256)"
    by (simp add: randbytes_def)
next
  assume "256 < n"
  then show "randbytes sr rnd n True
               = Inl (ValueError Cannot_produce_more_than_256_distinct_bytes)"
    by (simp add: randbytes_def)
qed

theorem randbytes_unique_witness:
  "(0::int) \<le> 3 \<and> (3::int) \<le> 256
   \<and> (\<exists>s. randbytes (\<lambda>k. Inl TypeError) (\<lambda>i. 7 * i + 5) 3 True = Inr s
            \<and> int (length s) = 3 \<and> distinct s)
   \<and> randbytes (\<lambda>k. Inl TypeError) (\<lambda>i. 7 * i + 5) 257 True
       = Inl (ValueError Cannot_produce_more_than_256_distinct_bytes)"
  using randbytes_unique [of 3 "\<lambda>k. Inl TypeError" "\<lambda>i. 7 * i + 5"]
    randbytes_unique [of 257 "\<lambda>k. Inl TypeError" "\<lambda>i. 7 * i + 5"]
  by auto

section \<open>Construction of an item definition\<close>

text \<open>
  What \<open>result\<close> and \<open>name\<close> resolve to: the keyword argument, else the entry of the
  mapping, else the sentinel.
\<close>

lemma dict2_init_fields:
  assumes "distinct (map fst idict)" and "distinct (map fst kwargs)"
    and "k = ''result'' \<or> k = ''name''"
  shows "map_of (update (update (fold (\<lambda>(f, v). setdefault f v) cfields
            [(''name'', u), (''description'', PStr []), (''result'', u)])
            (pop ''logger'' idict)) (pop ''logger'' kwargs)) k
         = Some (resolved u idict kwargs k)"
proof -
  have di: "distinct (map fst (pop ''logger'' idict))"
    using assms(1) by (simp add: pop_def distinct_map_filter)
  have dk: "distinct (map fst (pop ''logger'' kwargs))"
    using assms(2) by (simp add: pop_def distinct_map_filter)
  have base: "map_of (fold (\<lambda>(f, v). setdefault f v) cfields
            [(''name'', u), (''description'', PStr []), (''result'', u)]) k = Some u"
    using assms(3) by (auto intro!: map_of_fold_setdefault_Some)
  show ?thesis
    using assms(3) base
    by (auto simp: map_of_update map_of_rev_distinct [OF di] map_of_rev_distinct [OF dk]
        map_of_pop map_add_def resolved_def split: option.splits)
qed

lemma dict2_init_eq:
  assumes "distinct (map fst idict)" and "distinct (map fst kwargs)"
  shows "dict2_init u cfields idict kwargs
         = (if resolved u idict kwargs ''result'' = u
            then Inl (ValueError (Result_shall_be_defined (resolved u idict kwargs ''name'')))
            else Inr (update (update (fold (\<lambda>(f, v). setdefault f v) cfields
                    [(''name'', u), (''description'', PStr []), (''result'', u)])
                    (pop ''logger'' idict)) (pop ''logger'' kwargs)))"
  by (simp add: dict2_init_def Let_def dict2_init_fields [OF assms])

text \<open>
  C7 (as the code has it).  Construction fails, with the error that names the item,
  exactly when \<open>result\<close> resolves to the sentinel \<open>UNDEF_RESULT\<close>, which is the case
  whenever neither the mapping nor a keyword argument gives \<open>result\<close>; any other value,
  empty or not, passes.
\<close>

theorem dict2_init_fails_iff:
  assumes "distinct (map fst idict)" and "distinct (map fst kwargs)"
  shows "((\<exists>e. dict2_init u cfields idict kwargs = Inl e)
            \<longleftrightarrow> resolved u idict kwargs ''result'' = u)
       \<and> (map_of idict ''result'' = None \<and> map_of kwargs ''result'' = None
            \<longrightarrow> dict2_init u cfields idict kwargs
                  = Inl (ValueError (Result_shall_be_defined (resolved u idict kwargs ''name''))))
       \<and> (resolved u idict kwargs ''result'' \<noteq> u
            \<longrightarrow> (\<exists>self. dict2_init u cfields idict kwargs = Inr self
                   \<and> map_of self ''result'' = Some (resolved u idict kwargs ''result'')
                   \<and> map_of self ''name'' = Some (resolved u idict kwargs ''name'')))"
  by (auto simp: dict2_init_eq [OF assms] dict2_init_fields [OF assms] resolved_def)

theorem dict2_init_fails_iff_witness:
  "distinct (map fst [(''name'', PStr ''m'')]) \<and> distinct (map fst ([]::pydict))
   \<and> dict2_init (PStr ''undefined'') Modifier_fields [(''name'', PStr ''m'')] []
       = Inl (ValueError (Result_shall_be_defined (PStr ''m'')))
   \<and> (\<exists>self. dict2_init (PStr ''undefined'') Modifier_fields
                 [(''name'', PStr ''m'')] [(''result'', PStr ''f()'')] = Inr self
          \<and> map_of self ''result'' = Some (PStr ''f()''))"
  using dict2_init_fails_iff [of "[(''name'', PStr ''m'')]" "[]" "PStr ''undefined''" Modifier_fields]
    dict2_init_fails_iff [of "[(''name'', PStr ''m'')]" "[(''result'', PStr ''f()'')]"
      "PStr ''undefined''" Modifier_fields]
  by (auto simp: resolved_def)

text \<open>
  The claim as written fails: an empty \<open>result\<close> passes construction, and a non-empty
  \<open>result\<close> that happens to be the sentinel does not.
\<close>

theorem dict2_init_empty_result_counterexample:
  "dict2_init (PStr ''undefined'') [] [(''name'', PStr ''m''), (''result'', PStr '''')] []
     = Inr [(''name'', PStr ''m''), (''description'', PStr ''''), (''result'', PStr '''')]
   \<and> \<not> truthy (PStr '''')
   \<and> dict2_init (PStr ''undefined'') [] [(''name'', PStr ''m''), (''result'', PStr ''undefined'')] []
     = Inl (ValueError (Result_shall_be_defined (PStr ''m'')))
   \<and> truthy (PStr ''undefined'')"
  by (simp add: dict2_init_def update_def pop_def)

section \<open>The registry: which definition is stored, and when it is built\<close>

lemmas registry_defs = build_registry_def register_def dict2_init_def Modifier_fields_def
  update_def pop_def Let_def

lemmas env_defs = example_env_def example_formats_def expand_table_def

text \<open>
  C3 (the code at a failing input).  The entry \<open>m\<close> gives one expression for the
  specific format \<open>PE32\<close> and another for the class \<open>PE\<close>, which covers \<open>PE32\<close>.  The
  specific categories are gone through first and the classes after them, and each
  assignment \<^verbatim>\<open>registry[c2][m.name] = m\<close> replaces what is there: under \<open>PE32\<close> the
  registry ends with the definition made for the class \<open>PE\<close>.
\<close>

theorem broader_category_replaces_specific:
  "build_registry example_env (PObj 5)
     (PDict [(''m'', PDict [(''result'',
        PDict [(''PE32'', PStr ''specific()''), (''PE'', PStr ''broad()'')])])])
   = (None,
      [(''PE32'', [(''m'', example_modifier ''m'' ''broad()'')]),
       (''.NET'', [(''m'', example_modifier ''m'' ''broad()'')]),
       (''PE64'', [(''m'', example_modifier ''m'' ''broad()'')])])"
  by (simp add: registry_defs env_defs example_modifier_def)

lemma universal_category_replaces_specific:
  "map_of (snd (build_registry example_env (PObj 5)
     (PDict [(''m'', PDict [(''result'',
        PDict [(''MSDOS'', PStr ''specific()''), (''All'', PStr ''universal()'')])])]))) ''MSDOS''
   = Some [(''m'', example_modifier ''m'' ''universal()'')]"
  by (simp add: registry_defs env_defs example_modifier_def)

section \<open>The registry does not depend on who builds it\<close>

lemma setitem_idem: "setitem k v (setitem k v' d) = setitem k v d"
  by (induction d) auto

lemma setitem_commute:
  "k \<noteq> k' \<Longrightarrow> k \<in> fst ` set d \<Longrightarrow> setitem k v (setitem k' v' d) = setitem k' v' (setitem k v d)"
  by (induction d) force+

lemma setitem_key: "k \<in> fst ` set (setitem k v d)"
  by (induction d) force+

lemma setitem_apsnd: "map (apsnd h) (setitem k v d) = setitem k (h v) (map (apsnd h) d)"
  by (induction d) auto

lemma setdefault_apsnd: "map (apsnd h) (setdefault k v d) = setdefault k (h v) (map (apsnd h) d)"
  by (induction d) auto

lemma map_of_apsnd: "map_of (map (apsnd h) d) k = map_option h (map_of d k)"
  by (induction d) auto

lemma dict2_init_parent:
  "dict2_init u cfields params [(''name'', n), (''parent'', p'), (''result'', e)]
     = map_sum id (setitem ''parent'' p')
         (dict2_init u cfields params [(''name'', n), (''parent'', p), (''result'', e)])"
proof -
  have c: "setitem ''parent'' p' (setitem ''result'' e (setitem ''parent'' p d))
             = setitem ''result'' e (setitem ''parent'' p' d)" for d :: pydict
  proof -
    have "setitem ''parent'' p' (setitem ''result'' e (setitem ''parent'' p d))
            = setitem ''result'' e (setitem ''parent'' p' (setitem ''parent'' p d))"
      by (rule setitem_commute) (simp_all add: setitem_key)
    then show ?thesis by (simp only: setitem_idem)
  qed
  show ?thesis
    by (simp add: dict2_init_def Let_def update_def pop_def map_of_setitem c)
qed

lemma register_reparent:
  "register name (setitem ''parent'' p m) c2 (reparent p reg)
     = reparent p (register name m c2 reg)"
  by (simp add: register_def reparent_def Let_def setdefault_apsnd [symmetric, where v = "[]" and h = "map (apsnd (setitem ''parent'' p))", simplified]
      map_of_apsnd setitem_apsnd split: option.splits)

lemma fold_register_reparent:
  "fold (register name (setitem ''parent'' p m)) cs (reparent p reg)
     = reparent p (fold (register name m) cs reg)"
  by (induction cs arbitrary: reg) (simp_all add: register_reparent)

lemma build_categories_reparent:
  "build_categories E p' name params r cs (reparent p' reg)
     = (case build_categories E p name params r cs reg of (err, reg') \<Rightarrow> (err, reparent p' reg'))"
proof (induction cs arbitrary: reg)
  case Nil
  then show ?case by simp
next
  case (Cons c cs)
  show ?case
    by (simp add: Let_def Cons.IH fold_register_reparent
        dict2_init_parent [where p' = p' and p = p] split: sum.splits)
qed

lemma build_items_reparent:
  "build_items E p' data_all items (reparent p' reg)
     = (case build_items E p data_all items reg of (err, reg') \<Rightarrow> (err, reparent p' reg'))"
proof (induction items arbitrary: reg)
  case Nil
  then show ?case by simp
next
  case (Cons a items)
  obtain name params where a: "a = (name, params)" by (cases a)
  show ?case
  proof (cases "\<exists>defaults ps. data_all = PDict defaults \<and> params = PDict ps")
    case False
    then show ?thesis
      by (cases data_all; cases params) (simp_all add: a)
  next
    case True
    then obtain defaults ps where d: "data_all = PDict defaults" and ps: "params = PDict ps"
      by blast
    let ?ps = "fold (\<lambda>(k, v). setdefault k v) defaults ps"
    let ?r = "case map_of ?ps ''result'' of None \<Rightarrow> PDict [] | Some v \<Rightarrow> v"
    let ?cs = "expand_formats E ''All'' @ tl (FORMATS_keys E) @ [''All'']"
    obtain err reg1 where
      b: "build_categories E p name (pop ''result'' ?ps) ?r ?cs reg = (err, reg1)"
      by (cases "build_categories E p name (pop ''result'' ?ps) ?r ?cs reg") auto
    have b': "build_categories E p' name (pop ''result'' ?ps) ?r ?cs (reparent p' reg)
                = (err, reparent p' reg1)"
      using build_categories_reparent [where p' = p' and p = p and E = E and name = name
          and params = "pop ''result'' ?ps" and r = ?r and cs = ?cs and reg = reg]
      unfolding b by simp
    have l: "build_items E q (PDict defaults) ((name, PDict ps) # items) rg
               = (case build_categories E q name (pop ''result'' ?ps) ?r ?cs rg of
                    (Some e, rg') \<Rightarrow> (Some e, rg')
                  | (None, rg') \<Rightarrow> build_items E q (PDict defaults) items rg')" for q rg
      by (simp add: Let_def)
    show ?thesis
      unfolding a d ps l b b'
      by (cases err) (simp_all add: Cons.IH [unfolded d])
  qed
qed

lemma build_registry_reparent:
  "build_registry E p' doc
     = (case build_registry E p doc of (err, reg) \<Rightarrow> (err, reparent p' reg))"
proof -
  have "reparent p' [] = []" by (simp add: reparent_def)
  with build_items_reparent [where p' = p' and p = p and reg = "[]" and E = E] show ?thesis
    by (simp add: build_registry_def Let_def reparent_def split: pyval.splits)
qed

text \<open>
  C5.  \<open>Modifiers.__init__\<close> builds the registry only while the class has none: with a
  registry there it reads nothing and leaves the class as it is, whoever the instance
  is and whatever path \<open>Modifiers.source\<close> holds by then; so a second construction after
  a build changes nothing.  A build takes the document that the source holds and
  nothing else of the outside world: two builds from the same document give the same
  outcome and, for the same instance, the same registry; built by another instance,
  the registry has the same categories, names and definitions but for the field
  \<open>parent\<close>, which is that instance.  The setter of \<open>MetaBase.source\<close> (which is not the
  metaclass of \<open>Modifiers\<close>) changes nothing when the path assigned is the one the class
  has, and resets the registry to \<open>None\<close> otherwise: the registry is reset only when the
  path differs.
\<close>

theorem registry_memoized:
  "(registry cls = Some reg \<longrightarrow>
        init_registry x E self cls w = (None, cls, w)
      \<and> init_registry x E self (cls\<lparr>source := path'\<rparr>) w = (None, cls\<lparr>source := path'\<rparr>, w))
   \<and> (registry cls = None \<and> load x (source cls) w = (Inr doc, w1) \<longrightarrow>
        init_registry x E self cls w
          = (fst (build_registry E self doc),
             cls\<lparr>registry := Some (snd (build_registry E self doc))\<rparr>, w1)
      \<and> init_registry x E self' (fst (snd (init_registry x E self cls w))) w2
          = (None, fst (snd (init_registry x E self cls w)), w2))
   \<and> (registry cls = None \<and> load x (source cls) w = (Inr doc, w1)
        \<and> load x (source cls) w' = (Inr doc, w1') \<longrightarrow>
        fst (snd (init_registry x E self cls w')) = fst (snd (init_registry x E self cls w))
      \<and> fst (init_registry x E self' cls w') = fst (init_registry x E self cls w)
      \<and> registry (fst (snd (init_registry x E self' cls w')))
          = map_option (reparent self') (registry (fst (snd (init_registry x E self cls w)))))
   \<and> (source_attr c = Some (requested_path expand dflt path) \<longrightarrow>
        source_setter expand dflt path c = c)
   \<and> (source_attr c \<noteq> Some (requested_path expand dflt path) \<longrightarrow>
        source_setter expand dflt path c
          = c\<lparr>source_attr := Some (requested_path expand dflt path), registry_attr := None\<rparr>)
   \<and> (registry_attr (source_setter expand dflt path c) \<noteq> registry_attr c \<longrightarrow>
        source_attr c \<noteq> Some (requested_path expand dflt path))"
proof -
  have memo: "init_registry x E s c' v = (None, c', v)" if "registry c' = Some reg"
    for s c' v reg
    using that by (simp add: init_registry_def)
  have build: "init_registry x E s cls v
          = (fst (build_registry E s d),
             cls\<lparr>registry := Some (snd (build_registry E s d))\<rparr>, v1)"
    if "registry cls = None" "load x (source cls) v = (Inr d, v1)" for s v v1 d
    using that by (simp add: init_registry_def split: prod.splits)
  have other: "build_registry E self' doc
      = (fst (build_registry E self doc), reparent self' (snd (build_registry E self doc)))"
    using build_registry_reparent [of E self' doc self] by (simp split: prod.splits)
  have setter: "(source_attr c = Some (requested_path expand dflt path) \<longrightarrow>
        source_setter expand dflt path c = c)
   \<and> (source_attr c \<noteq> Some (requested_path expand dflt path) \<longrightarrow>
        source_setter expand dflt path c
          = c\<lparr>source_attr := Some (requested_path expand dflt path), registry_attr := None\<rparr>)
   \<and> (registry_attr (source_setter expand dflt path c) \<noteq> registry_attr c \<longrightarrow>
        source_attr c \<noteq> Some (requested_path expand dflt path))"
    by (auto simp: source_setter_def Let_def)
  have 1: "registry cls = Some reg \<longrightarrow>
        init_registry x E self cls w = (None, cls, w)
      \<and> init_registry x E self (cls\<lparr>source := path'\<rparr>) w = (None, cls\<lparr>source := path'\<rparr>, w)"
    by (simp add: memo)
  have 2: "registry cls = None \<and> load x (source cls) w = (Inr doc, w1) \<longrightarrow>
        init_registry x E self cls w
          = (fst (build_registry E self doc),
             cls\<lparr>registry := Some (snd (build_registry E self doc))\<rparr>, w1)
      \<and> init_registry x E self' (fst (snd (init_registry x E self cls w))) w2
          = (None, fst (snd (init_registry x E self cls w)), w2)"
    by (simp add: build memo)
  have 3: "registry cls = None \<and> load x (source cls) w = (Inr doc, w1)
        \<and> load x (source cls) w' = (Inr doc, w1') \<longrightarrow>
        fst (snd (init_registry x E self cls w')) = fst (snd (init_registry x E self cls w))
      \<and> fst (init_registry x E self' cls w') = fst (init_registry x E self cls w)
      \<and> registry (fst (snd (init_registry x E self' cls w')))
          = map_option (reparent self') (registry (fst (snd (init_registry x E self cls w))))"
    by (simp add: build other)
  show ?thesis by (rule conjI [OF 1 conjI [OF 2 conjI [OF 3 setter]]])
qed

theorem registry_memoized_witness:
  "init_registry
      (example_ext (PDict [(''m'', PDict [(''result'', PDict [(''PE32'', PStr ''f()'')])])]))
      example_env (PObj 5) example_class []
     = (None, example_built [(''m'', ''f()'')], [])
   \<and> init_registry
      (example_ext (PDict [(''m'', PDict [(''result'', PDict [(''PE32'', PStr ''f()'')])])]))
      example_env (PObj 6) (example_built [(''m'', ''f()'')]) [''later'']
     = (None, example_built [(''m'', ''f()'')], [''later''])
   \<and> init_registry
      (example_ext (PDict [(''m'', PDict [(''result'', PDict [(''PE32'', PStr ''f()'')])])]))
      example_env (PObj 6) ((example_built [(''m'', ''f()'')])\<lparr>source := ''other.yml''\<rparr>) []
     = (None, (example_built [(''m'', ''f()'')])\<lparr>source := ''other.yml''\<rparr>, [])
   \<and> registry (fst (snd (init_registry
      (example_ext (PDict [(''m'', PDict [(''result'', PDict [(''PE32'', PStr ''f()'')])])]))
      example_env (PObj 6) example_class [''later''])))
     = Some [(''PE32'', [(''m'', setitem ''parent'' (PObj 6) (example_modifier ''m'' ''f()''))])]
   \<and> source_setter (\<lambda>p. p) ''modifiers.yml'' (Some ''a.yml'')
        \<lparr>source_attr = Some ''a.yml'', registry_attr = Some ([]::registry)\<rparr>
     = \<lparr>source_attr = Some ''a.yml'', registry_attr = Some []\<rparr>
   \<and> source_setter (\<lambda>p. p) ''modifiers.yml'' (Some ''b.yml'')
        \<lparr>source_attr = Some ''a.yml'', registry_attr = Some ([]::registry)\<rparr>
     = \<lparr>source_attr = Some ''b.yml'', registry_attr = None\<rparr>"
proof -
  let ?doc = "PDict [(''m'', PDict [(''result'', PDict [(''PE32'', PStr ''f()'')])])]"
  let ?x = "example_ext ?doc"
  let ?c = "\<lparr>source_attr = Some ''a.yml'', registry_attr = Some ([]::registry)\<rparr>"
  have b: "build_registry example_env (PObj 5) ?doc
             = (None, [(''PE32'', [(''m'', example_modifier ''m'' ''f()'')])])"
    by (simp add: registry_defs env_defs example_modifier_def)
  have l: "load ?x p v = (Inr ?doc, v)" for p v by (simp add: example_ext_def)
  have r: "registry (example_built [(''m'', ''f()'')])
             = Some [(''PE32'', [(''m'', example_modifier ''m'' ''f()'')])]"
    and n: "registry example_class = None"
    by (simp_all add: example_built_def example_class_def)
  have e: "example_class\<lparr>registry := Some [(''PE32'', [(''m'', example_modifier ''m'' ''f()'')])]\<rparr>
             = example_built [(''m'', ''f()'')]"
    by (simp add: example_built_def example_class_def)
  note t1 = registry_memoized [where cls = "example_built [(''m'', ''f()'')]" and x = ?x
      and E = example_env and self = "PObj 6" and self' = "PObj 6" and w = "[''later'']"
      and w' = "[]" and ?w1.0 = "[]" and w1' = "[]" and ?w2.0 = "[]" and doc = ?doc
      and reg = "[(''PE32'', [(''m'', example_modifier ''m'' ''f()'')])]"
      and c = ?c and expand = "\<lambda>p. p" and dflt = "''modifiers.yml''" and path = "Some ''a.yml''"
      and path' = "''other.yml''"]
  note t1' = registry_memoized [where cls = "example_built [(''m'', ''f()'')]" and x = ?x
      and E = example_env and self = "PObj 6" and self' = "PObj 6" and w = "[]"
      and w' = "[]" and ?w1.0 = "[]" and w1' = "[]" and ?w2.0 = "[]" and doc = ?doc
      and reg = "[(''PE32'', [(''m'', example_modifier ''m'' ''f()'')])]"
      and c = ?c and expand = "\<lambda>p. p" and dflt = "''modifiers.yml''" and path = "Some ''a.yml''"
      and path' = "''other.yml''"]
  note t2 = registry_memoized [where cls = example_class and x = ?x
      and E = example_env and self = "PObj 5" and self' = "PObj 6" and w = "[]"
      and w' = "[''later'']" and doc = ?doc and ?w1.0 = "[]" and w1' = "[''later'']"
      and ?w2.0 = "[]" and reg = "[]" and path' = "''other.yml''"
      and c = ?c and expand = "\<lambda>p. p" and dflt = "''modifiers.yml''" and path = "Some ''b.yml''"]
  have i5: "init_registry ?x example_env (PObj 5) example_class []
              = (None, example_built [(''m'', ''f()'')], [])"
    using t2 by (simp add: n l b e)
  have m1: "init_registry ?x example_env (PObj 6) (example_built [(''m'', ''f()'')]) [''later'']
              = (None, example_built [(''m'', ''f()'')], [''later''])"
    using t1 by (simp add: r)
  have m2: "init_registry ?x example_env (PObj 6)
              ((example_built [(''m'', ''f()'')])\<lparr>source := ''other.yml''\<rparr>) []
              = (None, (example_built [(''m'', ''f()'')])\<lparr>source := ''other.yml''\<rparr>, [])"
    using t1' by (simp add: r)
  have r6: "registry (fst (snd (init_registry ?x example_env (PObj 6) example_class [''later''])))
              = Some [(''PE32'', [(''m'', setitem ''parent'' (PObj 6) (example_modifier ''m'' ''f()''))])]"
    using t2 by (simp add: n l i5 r reparent_def)
  have s1: "source_setter (\<lambda>p. p) ''modifiers.yml'' (Some ''a.yml'') ?c = ?c"
    using t1 by (simp add: requested_path_def)
  have s2: "source_setter (\<lambda>p. p) ''modifiers.yml'' (Some ''b.yml'') ?c
              = \<lparr>source_attr = Some ''b.yml'', registry_attr = None\<rparr>"
    using t2 by (simp add: requested_path_def)
  show ?thesis by (rule conjI [OF i5 conjI [OF m1 conjI [OF m2 conjI [OF r6 conjI [OF s1 s2]]]]])
qed

section \<open>The selection list\<close>

lemma check_select_warn:
  "check_select known True names select
     = Inr (fold remove1 (filter (\<lambda>n. n \<notin> set known) names) select)"
  by (induction names arbitrary: select) simp_all

lemma fold_remove1_filter:
  assumes "mset (filter P s) = mset us"
  shows "fold remove1 us s = filter (\<lambda>n. \<not> P n) s"
  using assms
proof (induction us arbitrary: s)
  case Nil
  then have "filter P s = []" by simp
  then have "\<forall>n \<in> set s. \<not> P n" by (simp add: filter_empty_conv)
  then show ?case by simp
next
  case (Cons u us)
  from Cons.prems have "u \<in># mset (filter P s)" by simp
  then have u: "u \<in> set s" "P u" by auto
  have "mset (filter P (remove1 u s)) = mset (filter P s) - {#u#}"
    by (simp add: filter_remove1)
  with Cons.prems have "mset (filter P (remove1 u s)) = mset us" by simp
  from Cons.IH [OF this] have "fold remove1 us (remove1 u s) = filter (\<lambda>n. \<not> P n) (remove1 u s)" .
  also have "\<dots> = remove1 u (filter (\<lambda>n. \<not> P n) s)" by (simp add: filter_remove1)
  also have "\<dots> = filter (\<lambda>n. \<not> P n) s" using u by (simp add: remove1_idem)
  finally show ?case by simp
qed

lemma check_select_warn_filter:
  "check_select known True names names = Inr (filter (\<lambda>n. n \<in> set known) names)"
  using fold_remove1_filter [of "\<lambda>n. n \<notin> set known" names "filter (\<lambda>n. n \<notin> set known) names"]
  by (simp add: check_select_warn)

section \<open>The loop over the modifiers\<close>

lemma apply_modifiers_append:
  "apply_modifiers x exe entries select (pre @ post) st
     = (case apply_modifiers x exe entries select pre st of
          (Some e, st') \<Rightarrow> (Some e, st')
        | (None, st') \<Rightarrow> apply_modifiers x exe entries select post st')"
proof (induction pre arbitrary: st)
  case Nil
  then show ?case by simp
next
  case (Cons a pre)
  obtain name modifier where a: "a = (name, modifier)" by (cases a)
  obtain parser names w where st: "st = (parser, names, w)" by (cases st)
  show ?case
    by (simp add: a st Cons.IH split: sum.splits bool.splits prod.splits)
qed

lemma apply_modifiers_names:
  "apply_modifiers x exe entries select todo (parser, names, w) = (err, parser', names', w')
     \<Longrightarrow> \<exists>ns. names' = names @ ns \<and> set ns \<subseteq> fst ` set todo \<and> (ns = [] \<longrightarrow> parser' = parser)"
proof (induction todo arbitrary: parser names w)
  case Nil
  then show ?case by simp
next
  case (Cons a todo)
  obtain name modifier where a: "a = (name, modifier)" by (cases a)
  show ?case
  proof (cases "skipped select name modifier")
    case (Inl e)
    with Cons.prems show ?thesis by (simp add: a)
  next
    case (Inr b)
    show ?thesis
    proof (cases b)
      case True
      with Inr Cons.prems
      have "apply_modifiers x exe entries select todo (parser, names, w) = (err, parser', names', w')"
        by (simp add: a)
      from Cons.IH [OF this] show ?thesis by auto
    next
      case False
      obtain r w1 where b: "bindings x exe parser entries w = (r, w1)" by (cases "bindings x exe parser entries w")
      show ?thesis
      proof (cases r)
        case (Inl e)
        with Inr False b Cons.prems show ?thesis by (simp add: a)
      next
        case d: (Inr d)
        obtain q w2 where c: "Modifier_call x modifier d parser [(''executable'', obj exe)] w1 = (q, w2)"
          by (cases "Modifier_call x modifier d parser [(''executable'', obj exe)] w1")
        show ?thesis
        proof (cases q)
          case (Inl e)
          with Inr False b d c Cons.prems
          have "apply_modifiers x exe entries select todo (parser, names, w2) = (err, parser', names', w')"
            by (simp add: a)
          from Cons.IH [OF this] show ?thesis by auto
        next
          case p: (Inr p)
          with Inr False b d c Cons.prems
          have "apply_modifiers x exe entries select todo (p, names @ [name], w2) = (err, parser', names', w')"
            by (simp add: a)
          from Cons.IH [OF this] obtain ns where
            "names' = (names @ [name]) @ ns" "set ns \<subseteq> fst ` set todo" by blast
          then have "names' = names @ (name # ns) \<and> set (name # ns) \<subseteq> fst ` set (a # todo)
              \<and> (name # ns = [] \<longrightarrow> parser' = parser)"
            by (auto simp: a)
          then show ?thesis by blast
        qed
      qed
    qed
  qed
qed

lemma apply_modifiers_failure:
  assumes "skipped select name modifier = Inr False"
    and "bindings x exe parser entries w = (Inr d, w1)"
    and "Modifier_call x modifier d parser [(''executable'', obj exe)] w1 = (Inl e, w2)"
  shows "apply_modifiers x exe entries select ((name, modifier) # rest) (parser, names, w)
           = apply_modifiers x exe entries select rest (parser, names, w2)"
  using assms by simp

section \<open>What a run leaves\<close>

lemma finish_fields:
  "applied (finish x select cls (err, parser, names, w)) = names"
  "selection (finish x select cls (err, parser, names, w)) = select"
  "last_parser (finish x select cls (err, parser, names, w)) = parser"
  "builds (finish x select cls (err, parser, names, w))
     = (if err = None \<and> parser \<noteq> PNone then 1 else 0)"
  by (auto simp: finish_def split: option.splits prod.splits)

lemma finish_raised_None:
  "raised (finish x select cls (err, parser, names, w)) = None \<Longrightarrow> err = None"
  by (auto simp: finish_def split: option.splits prod.splits if_splits)

section \<open>Counting the builds\<close>












section \<open>When the parser is built\<close>

lemma check_select_Nil: "check_select known warn [] select = Inr select"
  by simp




section \<open>The claims about the pipeline\<close>

lemmas run_defs = Modifiers_init_def init_registry_def run_target_def finish_def skipped_def
  bindings_def Modifier_call_def dict2_call_def dict2_exec_def summary_def update_def

lemmas example_defs = example_ext_def example_eval2_def example_call_def example_built_def
  example_modifier_def example_target_def

lemma run_target_selection: "selection (run_target x exe select cls reg w) = select"
  by (cases "apply_modifiers x exe entries select entries (PNone, [], w)")
     (auto simp: run_target_def finish_def split: option.splits prod.splits)



text \<open>
  C2 (as the code has it).  When a selected item raises while it is applied, the loop
  goes on with the items after it, from the parser and the list of names as they were
  before it; the item is not in the list of applied names; and the parser is built
  exactly when the loop over the remaining items ends without a raise and leaves a
  parser that is not \<open>None\<close>.
\<close>

theorem failing_modifier_isolated:
  assumes "map_of reg (format exe) = Some entries"
    and "entries = pre @ (name, modifier) # rest"
    and "distinct (map fst entries)"
    and "apply_modifiers x exe entries select pre (PNone, [], w) = (None, parser, names, w0)"
    and "skipped select name modifier = Inr False"
    and "bindings x exe parser entries w0 = (Inr d, w1)"
    and "Modifier_call x modifier d parser [(''executable'', obj exe)] w1 = (Inl e, w2)"
  shows "run_target x exe select cls reg w
           = finish x select cls (apply_modifiers x exe entries select rest (parser, names, w2))
       \<and> name \<notin> set (applied (run_target x exe select cls reg w))
       \<and> (builds (run_target x exe select cls reg w) = 1 \<longleftrightarrow>
            (\<exists>p ns w'. apply_modifiers x exe entries select rest (parser, names, w2) = (None, p, ns, w')
                       \<and> p \<noteq> PNone))"
proof -
  obtain err p ns w' where
    r: "apply_modifiers x exe entries select rest (parser, names, w2) = (err, p, ns, w')"
    by (cases "apply_modifiers x exe entries select rest (parser, names, w2)") auto
  have "apply_modifiers x exe entries select entries (PNone, [], w)
          = apply_modifiers x exe entries select (pre @ (name, modifier) # rest) (PNone, [], w)"
    using assms(2) by simp
  also have "\<dots> = apply_modifiers x exe entries select ((name, modifier) # rest) (parser, names, w0)"
    by (simp add: apply_modifiers_append assms(4))
  also have "\<dots> = apply_modifiers x exe entries select rest (parser, names, w2)"
    by (rule apply_modifiers_failure [OF assms(5) assms(6) assms(7)])
  also note r
  finally have whole: "apply_modifiers x exe entries select entries (PNone, [], w) = (err, p, ns, w')" .
  have run: "run_target x exe select cls reg w = finish x select cls (err, p, ns, w')"
    by (simp add: run_target_def assms(1) whole)
  from apply_modifiers_names [OF assms(4)] have n1: "set names \<subseteq> fst ` set pre" by auto
  from apply_modifiers_names [OF r] obtain ns' where
    n2: "ns = names @ ns'" "set ns' \<subseteq> fst ` set rest" by blast
  from assms(2) assms(3) have "name \<notin> fst ` set pre" "name \<notin> fst ` set rest" by auto
  with n1 n2 have "name \<notin> set ns" by auto
  then show ?thesis
    by (auto simp: run r finish_fields)
qed

theorem failing_modifier_isolated_witness:
  "applied (run_target (example_ext PNone) example_target None
      (example_built [(''a'', ''unbound''), (''b'', ''f()'')])
      [(''PE32'', [(''a'', example_modifier ''a'' ''unbound''), (''b'', example_modifier ''b'' ''f()'')])]
      []) = [''b'']
   \<and> ''a'' \<notin> set (applied (run_target (example_ext PNone) example_target None
      (example_built [(''a'', ''unbound''), (''b'', ''f()'')])
      [(''PE32'', [(''a'', example_modifier ''a'' ''unbound''), (''b'', example_modifier ''b'' ''f()'')])]
      []))
   \<and> builds (run_target (example_ext PNone) example_target None
      (example_built [(''a'', ''unbound''), (''b'', ''f()'')])
      [(''PE32'', [(''a'', example_modifier ''a'' ''unbound''), (''b'', example_modifier ''b'' ''f()'')])]
      []) = 1"
proof -
  let ?entries = "[(''a'', example_modifier ''a'' ''unbound''), (''b'', example_modifier ''b'' ''f()'')]"
  let ?reg = "[(''PE32'', ?entries)]"
  let ?x = "example_ext PNone"
  have h1: "map_of ?reg (format example_target) = Some ?entries"
    by (simp add: example_target_def)
  have h2: "?entries = [] @ (''a'', example_modifier ''a'' ''unbound'')
                # [(''b'', example_modifier ''b'' ''f()'')]"
    by simp
  have h3: "distinct (map fst ?entries)" by simp
  have h4: "apply_modifiers ?x example_target ?entries None [] (PNone, [], [])
              = (None, PNone, [], [])"
    by simp
  have h5: "skipped None ''a'' (example_modifier ''a'' ''unbound'') = Inr False"
    by (simp add: skipped_def example_modifier_def)
  have h6: "bindings ?x example_target PNone ?entries []
              = (Inr (update (update [(''sections'', PList [])] [])
                   (map (\<lambda>(name, m). (name, PDict m)) ?entries)), [])"
    by (simp add: bindings_def example_ext_def)
  have h7: "Modifier_call ?x (example_modifier ''a'' ''unbound'')
              (update (update [(''sections'', PList [])] [])
                   (map (\<lambda>(name, m). (name, PDict m)) ?entries))
              PNone [(''executable'', obj example_target)] [] = (Inl NameError, [''unbound''])"
    by (simp add: Modifier_call_def dict2_call_def dict2_exec_def example_defs)
  from failing_modifier_isolated [OF h1 h2 h3 h4 h5 h6 h7]
  show ?thesis
    by (simp add: run_defs example_defs)
qed

text \<open>
  The claim as written fails in its last part: \<open>a\<close> raises, \<open>c\<close> succeeds after it and
  is applied, and nothing is built, since the function of \<open>c\<close> returns \<open>None\<close>.
\<close>

theorem no_commit_after_success_counterexample:
  "summary (Modifiers_init (example_ext PNone) example_env (PObj 5)
      (example_built [(''a'', ''unbound''), (''c'', ''lambda **kw: None'')])
      (Some example_target) None False [])
   = (None, [''c''], None, 0, [''unbound'', ''lambda **kw: None''])"
  by (simp add: run_defs example_defs)

lemma exec_all_append_forbidden:
  assumes "exec_all x silent d kwargs pre w0 = (Inr vs, w1)"
    and "dict2_exec x silent d kwargs r w1 = (Inl e, w2)"
  shows "exec_all x silent d kwargs (pre @ r # post) w0 = (Inl e, w2)"
  using assms
proof (induction pre arbitrary: w0 vs)
  case Nil
  then show ?case by simp
next
  case (Cons a pre)
  from Cons.prems(1) obtain v wa vs' where
    a: "dict2_exec x silent d kwargs a w0 = (Inr v, wa)"
    and p: "exec_all x silent d kwargs pre wa = (Inr vs', w1)"
    by (auto split: prod.splits sum.splits)
  from Cons.IH [OF p Cons.prems(2)] show ?case by (simp add: a)
qed

lemma Modifier_loop_first_raise:
  assumes "dict2_call x False self d False ((''parser'', parser) # kw) w = (Inl e, w')"
  shows "Modifier_loop x self d kw (Suc n) parser w = (Inl e, w')"
  using assms by simp

text \<open>
  C1 (as the code has it).  An expression whose evaluation hits a node outside the
  allow-list makes \<open>_exec\<close> raise \<open>ForbiddenNodeError\<close>, whatever \<open>silent\<close> and the
  keyword parameters are, also as a member of a list of expressions; so does the call
  of the item that has it for \<open>result\<close>, with or without \<open>parameters\<close>, evaluated once
  or in a \<open>loop\<close>, where the first round raises.  The pipeline catches it as it
  catches any exception of an item: the item is not applied and the loop goes on with
  the next.
\<close>

theorem forbidden_expression_raised_then_caught:
  assumes "eval2 x r d w1 = (Inl ForbiddenNodeError, w2)"
    and "map_of modifier ''result'' = Some r"
    and "\<forall>rs. r \<noteq> PList rs"
    and "map_of modifier ''parameters'' = None
         \<or> (\<exists>ps. map_of modifier ''parameters'' = Some (PDict ps))
         \<or> (\<exists>v ps. map_of modifier ''parameters'' = Some v \<and> items_of x v = Inr ps)"
    and "map_of modifier ''loop'' = Some PNone
         \<or> (\<exists>n. map_of modifier ''loop'' = Some (PInt n) \<and> 0 < n)
         \<or> map_of modifier ''loop'' = Some (PBool True)"
    and "skipped select name modifier = Inr False"
    and "bindings x exe parser entries w = (Inr d, w1)"
  shows "dict2_exec x silent d kwargs r w1 = (Inl ForbiddenNodeError, w2)
       \<and> (exec_all x silent d kwargs pre w0 = (Inr vs, w1)
            \<longrightarrow> exec_all x silent d kwargs (pre @ r # post) w0 = (Inl ForbiddenNodeError, w2))
       \<and> dict2_call x multi_expr modifier d silent kwargs w1 = (Inl ForbiddenNodeError, w2)
       \<and> Modifier_call x modifier d parser [(''executable'', obj exe)] w1
           = (Inl ForbiddenNodeError, w2)
       \<and> apply_modifiers x exe entries select ((name, modifier) # rest) (parser, names, w)
           = apply_modifiers x exe entries select rest (parser, names, w2)"
proof -
  have e: "dict2_exec x silent d kwargs r w1 = (Inl ForbiddenNodeError, w2)"
    for silent kwargs
    by (simp add: dict2_exec_def assms(1))
  have l: "exec_all x silent d kwargs (pre @ r # post) w0 = (Inl ForbiddenNodeError, w2)"
    if "exec_all x silent d kwargs pre w0 = (Inr vs, w1)"
    using that e by (rule exec_all_append_forbidden)
  have c: "dict2_call x multi_expr modifier d silent kwargs w1 = (Inl ForbiddenNodeError, w2)"
    for multi_expr silent kwargs
  proof -
    from assms(4) consider (a) "map_of modifier ''parameters'' = None"
      | (b) ps where "map_of modifier ''parameters'' = Some (PDict ps)"
      | (c) v ps where "map_of modifier ''parameters'' = Some v" "items_of x v = Inr ps"
      by auto
    then obtain kwargs' where
      k: "(case map_of modifier ''parameters'' of
             None \<Rightarrow> Inr kwargs
           | Some (PDict ps) \<Rightarrow> Inr (update kwargs ps)
           | Some v \<Rightarrow> (case items_of x v of Inl e \<Rightarrow> Inl e | Inr ps \<Rightarrow> Inr (update kwargs ps)))
          = Inr kwargs'"
    proof cases
      case a
      with that show ?thesis by simp
    next
      case b
      with that show ?thesis by simp
    next
      case c
      with that show ?thesis by (cases v) simp_all
    qed
    from assms(3) e [of silent kwargs'] show ?thesis
      unfolding dict2_call_def k by (cases r) (simp_all add: assms(2))
  qed
  have m: "Modifier_call x modifier d parser [(''executable'', obj exe)] w1
             = (Inl ForbiddenNodeError, w2)"
  proof -
    from assms(5) consider "map_of modifier ''loop'' = Some PNone"
      | n where "map_of modifier ''loop'' = Some (PInt n)" "0 < n"
      | "map_of modifier ''loop'' = Some (PBool True)" by blast
    then show ?thesis
    proof cases
      case 1
      then show ?thesis by (simp add: Modifier_call_def c)
    next
      case 2
      from 2(2) obtain k where "nat n = Suc k" by (cases "nat n") auto
      with 2(1) show ?thesis by (simp add: Modifier_call_def c)
    next
      case 3
      then show ?thesis by (simp add: Modifier_call_def c)
    qed
  qed
  from apply_modifiers_failure [OF assms(6) assms(7) m] e l c m show ?thesis by simp
qed

theorem forbidden_expression_raised_then_caught_witness:
  "dict2_exec (example_ext PNone) True [(''sections'', PList [])] [] (PStr ''__import__(1)'') []
     = (Inl ForbiddenNodeError, [''__import__(1)''])
   \<and> dict2_exec (example_ext PNone) False [(''sections'', PList [])] [] (PStr ''__import__(1)'') []
     = (Inl ForbiddenNodeError, [''__import__(1)''])
   \<and> Modifier_call (example_ext PNone)
        (setitem ''parameters'' (PDict [(''n'', PInt 1)])
           (setitem ''loop'' (PInt 2) (example_modifier ''a'' ''__import__(1)'')))
        [(''sections'', PList [])] PNone [(''executable'', obj example_target)] []
     = (Inl ForbiddenNodeError, [''__import__(1)''])
   \<and> apply_modifiers (example_ext PNone) example_target [] None
        [(''a'', setitem ''parameters'' (PDict [(''n'', PInt 1)])
           (setitem ''loop'' (PInt 2) (example_modifier ''a'' ''__import__(1)'')))] (PNone, [], [])
     = (None, PNone, [], [''__import__(1)''])
   \<and> apply_modifiers (example_ext PNone) example_target [] None
        [(''a'', example_modifier ''a'' ''__import__(1)'')] (PNone, [], [])
     = (None, PNone, [], [''__import__(1)''])"
proof -
  let ?m = "setitem ''parameters'' (PDict [(''n'', PInt 1)])
              (setitem ''loop'' (PInt 2) (example_modifier ''a'' ''__import__(1)''))"
  let ?m0 = "example_modifier ''a'' ''__import__(1)''"
  have h1: "eval2 (example_ext PNone) (PStr ''__import__(1)'') d []
              = (Inl ForbiddenNodeError, [''__import__(1)''])" for d
    by (simp add: example_defs)
  have h2: "map_of ?m ''result'' = Some (PStr ''__import__(1)'')"
    and h2': "map_of ?m0 ''result'' = Some (PStr ''__import__(1)'')"
    by (simp_all add: example_modifier_def)
  have h3: "\<forall>rs. PStr ''__import__(1)'' \<noteq> PList rs" by simp
  have h4: "map_of ?m ''parameters'' = None
         \<or> (\<exists>ps. map_of ?m ''parameters'' = Some (PDict ps))
         \<or> (\<exists>v ps. map_of ?m ''parameters'' = Some v \<and> items_of (example_ext PNone) v = Inr ps)"
    and h4': "map_of ?m0 ''parameters'' = None
         \<or> (\<exists>ps. map_of ?m0 ''parameters'' = Some (PDict ps))
         \<or> (\<exists>v ps. map_of ?m0 ''parameters'' = Some v \<and> items_of (example_ext PNone) v = Inr ps)"
    by (simp_all add: example_modifier_def)
  have h5: "map_of ?m ''loop'' = Some PNone
         \<or> (\<exists>n. map_of ?m ''loop'' = Some (PInt n) \<and> 0 < n)
         \<or> map_of ?m ''loop'' = Some (PBool True)"
    and h5': "map_of ?m0 ''loop'' = Some PNone
         \<or> (\<exists>n. map_of ?m0 ''loop'' = Some (PInt n) \<and> 0 < n)
         \<or> map_of ?m0 ''loop'' = Some (PBool True)"
    by (simp_all add: example_modifier_def)
  have h6: "skipped None ''a'' ?m = Inr False" and h6': "skipped None ''a'' ?m0 = Inr False"
    by (simp_all add: skipped_def example_modifier_def)
  have h7: "bindings (example_ext PNone) example_target PNone [] []
              = (Inr [(''sections'', PList [])], [])"
    by (simp add: bindings_def example_ext_def update_def)
  from forbidden_expression_raised_then_caught [OF h1 h2 h3 h4 h5 h6 h7, of True "[]" "[]" "[]" "[]" "[]" False "[]" "[]"]
    forbidden_expression_raised_then_caught [OF h1 h2' h3 h4' h5' h6' h7, of False "[]" "[]" "[]" "[]" "[]" False "[]" "[]"]
  show ?thesis by (simp add: run_defs example_defs numeral_2_eq_2)
qed

text \<open>
  The claim as written fails in its second part: the run with the forbidden
  expression \<open>a\<close> is not aborted; it ends without an exception, \<open>b\<close> is evaluated after
  \<open>a\<close> and applied, and the parser is built.
\<close>

theorem forbidden_not_reraised_counterexample:
  "summary (Modifiers_init (example_ext PNone) example_env (PObj 5)
      (example_built [(''a'', ''__import__(1)''), (''b'', ''f()'')])
      (Some example_target) None False [])
   = (None, [''b''], None, 1, [''__import__(1)'', ''f()'', ''build''])"
  by (simp add: run_defs example_defs)

text \<open>
  C10.  In the lenient mode (\<open>warn\<close> set), with a selection list given and the
  registry holding the format of the target, the caller's list is left with exactly
  its names that the registry has for that format, in their order, however the run
  ends after that.
\<close>

theorem unknown_names_removed_from_selection:
  assumes "init_registry x E self cls w = (None, cls', w')"
    and "registry cls' = Some reg"
    and "map_of reg (format target) = Some entries"
  shows "selection (Modifiers_init x E self cls (Some target) (Some names) True w)
           = Some (filter (\<lambda>n. n \<in> fst ` set entries) names)"
proof (cases names)
  case Nil
  then show ?thesis
    by (simp add: Modifiers_init_def assms run_target_selection)
next
  case (Cons n ns)
  have "check_select (map fst entries) True (n # ns) (n # ns)
          = Inr (filter (\<lambda>n. n \<in> fst ` set entries) (n # ns))"
    using check_select_warn_filter [of "map fst entries" "n # ns"] by simp
  then show ?thesis
    by (simp add: Modifiers_init_def assms Cons run_target_selection del: check_select.simps)
qed

theorem unknown_names_removed_from_selection_witness:
  "selection (Modifiers_init (example_ext PNone) example_env (PObj 5)
      (example_built [(''a'', ''unbound''), (''b'', ''f()'')]) (Some example_target)
      (Some [''zz'', ''b'', ''a'', ''zz'', ''q'']) True [])
   = Some [''b'', ''a'']"
proof -
  let ?cls = "example_built [(''a'', ''unbound''), (''b'', ''f()'')]"
  let ?entries = "[(''a'', example_modifier ''a'' ''unbound''), (''b'', example_modifier ''b'' ''f()'')]"
  have h1: "init_registry (example_ext PNone) example_env (PObj 5) ?cls [] = (None, ?cls, [])"
    by (simp add: init_registry_def example_built_def)
  have h2: "registry ?cls = Some [(''PE32'', ?entries)]"
    by (simp add: example_built_def)
  have h3: "map_of [(''PE32'', ?entries)] (format example_target) = Some ?entries"
    by (simp add: example_target_def)
  from unknown_names_removed_from_selection [OF h1 h2 h3, of "[''zz'', ''b'', ''a'', ''zz'', ''q'']"]
  show ?thesis by simp
qed

section \<open>Variants from a template\<close>

lemma keys_setitem:
  "map fst (setitem k v d) = (if k \<in> fst ` set d then map fst d else map fst d @ [k])"
  by (induction d) force+

lemma keys_setdefault:
  "map fst (setdefault k v d) = (if k \<in> fst ` set d then map fst d else map fst d @ [k])"
  by (induction d) force+

lemma values_setitem: "snd ` set (setitem k v d) \<subseteq> insert v (snd ` set d)"
  by (induction d) (fastforce split: if_splits)+

lemma values_setdefault: "snd ` set (setdefault k v d) \<subseteq> insert v (snd ` set d)"
  by (induction d) (fastforce split: if_splits)+

lemma map_of_values: "map_of d k = Some v \<Longrightarrow> v \<in> snd ` set d"
  by (induction d) (auto split: if_splits)

lemma all_dicts_iff: "all_dicts d \<longleftrightarrow> (\<forall>v \<in> snd ` set d. \<exists>e. v = PDict e)"
proof -
  have "is_dict v \<longleftrightarrow> (\<exists>e. v = PDict e)" for v by (cases v) simp_all
  then show ?thesis by (simp add: all_dicts_def list_all_iff)
qed

lemma all_dicts_insert:
  "snd ` set d' \<subseteq> insert (PDict t) (snd ` set d) \<Longrightarrow> all_dicts d \<Longrightarrow> all_dicts d'"
  unfolding all_dicts_iff by blast

lemma length_product_lists_prod:
  "length (product_lists xss) = prod_list (map length xss)"
  by (induction xss) (simp_all add: length_concat o_def sum_list_triv)

lemma startswith_underscore_tl: "startswith_underscore k \<Longrightarrow> CHR ''_'' # tl k = k"
  by (cases k) (simp_all add: startswith_underscore_def)

lemma pop_attrs_subdict:
  assumes "distinct (map fst t)" "set u \<subseteq> set t" "distinct (map fst u)"
    and "\<forall>k \<in> fst ` set u. startswith_underscore k"
  shows "pop_attrs (map (\<lambda>a. tl (fst a)) u) t
           = Inr (map snd u, filter (\<lambda>(k, v). k \<notin> fst ` set u) t)"
  using assms
proof (induction u arbitrary: t)
  case Nil
  then show ?case by simp
next
  case (Cons p u)
  obtain k v where p: "p = (k, v)" by (cases p)
  from Cons.prems p have k: "CHR ''_'' # tl k = k"
    by (simp add: startswith_underscore_tl)
  from Cons.prems p have look: "map_of t k = Some v" by simp
  have d: "distinct (map fst (pop k t))"
    using Cons.prems(1) by (simp add: pop_def distinct_map_filter)
  have "k \<notin> fst ` set u" using Cons.prems(3) p by simp
  then have s: "set u \<subseteq> set (pop k t)"
    using Cons.prems(2) by (force simp: pop_def)
  have IH: "pop_attrs (map (\<lambda>a. tl (fst a)) u) (pop k t)
              = Inr (map snd u, filter (\<lambda>(k, v). k \<notin> fst ` set u) (pop k t))"
    using Cons.prems by (intro Cons.IH [OF d s]) simp_all
  have f: "filter (\<lambda>(k', v). k' \<notin> fst ` set u) (pop k t)
             = filter (\<lambda>(k', v). k' \<notin> fst ` set (p # u)) t"
    by (auto simp: pop_def p intro!: filter_cong)
  show ?case
    by (simp only: p list.map fst_conv snd_conv pop_attrs.simps k look option.case
        IH sum.case prod.case f [unfolded p])
qed

lemma pop_attrs_template:
  assumes "distinct (map fst template)"
  shows "pop_attrs (map tl (filter startswith_underscore (map fst template))) template
           = Inr (map snd (filter (\<lambda>(k, v). startswith_underscore k) template),
                  filter (\<lambda>(k, v). \<not> startswith_underscore k) template)"
proof -
  let ?u = "filter (\<lambda>(k, v). startswith_underscore k) template"
  have m: "filter startswith_underscore (map fst template) = map fst ?u"
    by (induction template) auto
  have "pop_attrs (map (\<lambda>a. tl (fst a)) ?u) template
          = Inr (map snd ?u, filter (\<lambda>(k, v). k \<notin> fst ` set ?u) template)"
    using assms by (intro pop_attrs_subdict) (auto simp: distinct_map_filter)
  moreover have "filter (\<lambda>(k, v). k \<notin> fst ` set ?u) template
                   = filter (\<lambda>(k, v). \<not> startswith_underscore k) template"
    by (rule filter_cong) (force+)
  ultimately show ?thesis by (simp add: m o_def)
qed

lemma expand_tuple_keys:
  assumes "all_dicts variants"
  shows "\<exists>variants'. expand_tuple str_of item attrs template variants values = Inr variants'
           \<and> map fst variants'
               = (if vitem_of str_of item values \<in> fst ` set variants then map fst variants
                  else map fst variants @ [vitem_of str_of item values])
           \<and> all_dicts variants'"
proof -
  let ?n = "vitem_of str_of item values"
  let ?v1 = "setdefault ?n (PDict template) variants"
  have a1: "all_dicts ?v1"
    using values_setdefault assms by (rule all_dicts_insert)
  obtain x where x: "map_of ?v1 ?n = Some x"
    by (cases "map_of variants ?n") (simp_all add: map_of_setdefault)
  from map_of_values [OF x] a1 obtain e where e: "x = PDict e"
    unfolding all_dicts_iff by blast
  let ?e' = "fold (\<lambda>(k, v). setdefault k v) (zip attrs values @ template) e"
  have r: "expand_tuple str_of item attrs template variants values
             = Inr (setitem ?n (PDict ?e') ?v1)"
    by (simp add: expand_tuple_def Let_def x e)
  have k1: "?n \<in> fst ` set ?v1"
    using x by (metis map_of_eq_None_iff option.distinct(1))
  have "map fst (setitem ?n (PDict ?e') ?v1) = map fst ?v1"
    using k1 by (simp add: keys_setitem)
  moreover have "all_dicts (setitem ?n (PDict ?e') ?v1)"
    using values_setitem a1 by (rule all_dicts_insert)
  ultimately show ?thesis by (simp add: r keys_setdefault)
qed

lemma expand_tuples_keys:
  assumes "all_dicts variants"
  shows "\<exists>variants' new. expand_tuples str_of item attrs template variants tuples = Inr variants'
           \<and> map fst variants' = map fst variants @ new
           \<and> set new = vitem_of str_of item ` set tuples - fst ` set variants
           \<and> distinct new
           \<and> all_dicts variants'"
  using assms
proof (induction tuples arbitrary: variants)
  case Nil
  then show ?case by simp
next
  case (Cons vals rest)
  let ?n = "vitem_of str_of item vals"
  from expand_tuple_keys [OF Cons.prems, of str_of item attrs template vals]
  obtain v1 where v1: "expand_tuple str_of item attrs template variants vals = Inr v1"
    and k1: "map fst v1 = (if ?n \<in> fst ` set variants then map fst variants
                           else map fst variants @ [?n])"
    and a1: "all_dicts v1" by blast
  from Cons.IH [OF a1] obtain v' new where
    r: "expand_tuples str_of item attrs template v1 rest = Inr v'"
    and k: "map fst v' = map fst v1 @ new"
    and s: "set new = vitem_of str_of item ` set rest - fst ` set v1"
    and d: "distinct new" and a: "all_dicts v'" by blast
  have e: "expand_tuples str_of item attrs template variants (vals # rest) = Inr v'"
    by (simp add: v1 r)
  have s1: "fst ` set v1 = (if ?n \<in> fst ` set variants then fst ` set variants
                            else insert ?n (fst ` set variants))"
    using arg_cong [OF k1, of set] by (simp split: if_splits)
  show ?case
  proof (cases "?n \<in> fst ` set variants")
    case True
    with k1 s1 have "map fst v' = map fst variants @ new"
      and "set new = vitem_of str_of item ` set (vals # rest) - fst ` set variants"
      using k s by auto
    with e d a show ?thesis by blast
  next
    case False
    with k1 s1 have "map fst v' = map fst variants @ (?n # new)"
      and "set (?n # new) = vitem_of str_of item ` set (vals # rest) - fst ` set variants"
      and "distinct (?n # new)"
      using k s d by auto
    with e a show ?thesis by blast
  qed
qed

lemma all_dicts_pop: "all_dicts d \<Longrightarrow> all_dicts (pop k d)"
  by (auto simp: all_dicts_iff pop_def)

text \<open>
  C4, amended.  A \<open>_template\<close> whose underscore keys bind iterables of lengths \<open>L1, ..., Ln\<close>
  is expanded over the \<open>L1 * ... * Ln\<close> tuples of their product; each tuple is given
  the name made of the item and its values joined by dashes, and the resulting
  dictionary of variants has the variants declared by name, in their places, followed
  by one variant for each distinct new name: duplicate values in an iterable, values
  with the same text and names that are declared already make no second variant.  The
  keys of the result are pairwise distinct, and there are \<open>L1 * ... * Ln\<close> new ones
  exactly when the names of the tuples are pairwise distinct and none is declared
  already.
\<close>

theorem variants_from_template:
  assumes "map_of data ''variants'' = Some (PDict variants)"
    and "map_of variants ''_template'' = Some (PDict template)"
    and "template \<noteq> []"
    and "distinct (map fst variants)" and "distinct (map fst template)"
    and "all_dicts variants"
    and "iter_all (map snd (filter (\<lambda>(k, v). startswith_underscore k) template)) = Inr its"
  shows "\<exists>variants' new.
           expand_variants str_of item data = Inr variants'
         \<and> length (product_lists its) = prod_list (map length its)
         \<and> map fst variants' = map fst (pop ''_template'' variants) @ new
         \<and> set new = vitem_of str_of item ` set (product_lists its)
                        - fst ` set (pop ''_template'' variants)
         \<and> distinct (map fst variants')
         \<and> (length new = prod_list (map length its)
              \<longleftrightarrow> distinct (map (vitem_of str_of item) (product_lists its))
                  \<and> vitem_of str_of item ` set (product_lists its)
                      \<inter> fst ` set (pop ''_template'' variants) = {})"
proof -
  let ?old = "pop ''_template'' variants"
  let ?t = "filter (\<lambda>(k, v). \<not> startswith_underscore k) template"
  let ?attrs = "map tl (filter startswith_underscore (map fst template))"
  let ?names = "map (vitem_of str_of item) (product_lists its)"
  have e: "expand_variants str_of item data
             = expand_tuples str_of item ?attrs ?t ?old (product_lists its)"
    using assms(1,2,3,7) by (simp add: expand_variants_def pop_attrs_template [OF assms(5)])
  from expand_tuples_keys [OF all_dicts_pop [OF assms(6)], of str_of item ?attrs ?t "''_template''" "product_lists its"]
  obtain v' new where r: "expand_tuples str_of item ?attrs ?t ?old (product_lists its) = Inr v'"
    and k: "map fst v' = map fst ?old @ new"
    and s: "set new = vitem_of str_of item ` set (product_lists its) - fst ` set ?old"
    and d: "distinct new" by blast
  have dold: "distinct (map fst ?old)"
    using assms(4) by (simp add: pop_def distinct_map_filter)
  have dk: "distinct (map fst v')"
    using dold d s by (auto simp: k)
  have len: "length (product_lists its) = prod_list (map length its)"
    by (rule length_product_lists_prod)
  let ?N = "vitem_of str_of item ` set (product_lists its)"
  have sn: "set ?names = ?N" by simp
  have ln: "length ?names = prod_list (map length its)" using len by simp
  have cn: "length new = card (?N - fst ` set ?old)"
    using distinct_card [OF d] s by simp
  have iff: "card (?N - fst ` set ?old) = length ?names
               \<longleftrightarrow> distinct ?names \<and> ?N \<inter> fst ` set ?old = {}"
  proof
    assume c: "card (?N - fst ` set ?old) = length ?names"
    have "card (?N - fst ` set ?old) \<le> card ?N"
      by (rule card_mono) auto
    moreover have "card ?N \<le> length ?names"
      using card_length [of ?names] by (simp only: sn)
    ultimately have c1: "card (set ?names) = length ?names"
      and c2: "card (?N - fst ` set ?old) = card ?N" using c by (simp_all only: sn)
    from c1 have "distinct ?names" by (rule card_distinct)
    moreover have "?N - fst ` set ?old = ?N"
      by (rule card_subset_eq) (use c2 in auto)
    ultimately show "distinct ?names \<and> ?N \<inter> fst ` set ?old = {}" by blast
  next
    assume a: "distinct ?names \<and> ?N \<inter> fst ` set ?old = {}"
    then have "?N - fst ` set ?old = set ?names" unfolding sn by blast
    with a show "card (?N - fst ` set ?old) = length ?names"
      by (simp only: distinct_card)
  qed
  have 1: "expand_variants str_of item data = Inr v'" using e r by (rule trans)
  have 2: "length new = prod_list (map length its)
             \<longleftrightarrow> distinct ?names \<and> ?N \<inter> fst ` set ?old = {}"
    using iff by (simp only: cn ln)
  from 1 len k s dk 2 show ?thesis by blast
qed

theorem variants_from_template_witness:
  "all_dicts [(''_template'', PDict [(''_n'', PList [PInt 1, PInt 2]),
                                      (''_c'', PList [PStr ''x'', PStr ''y''])])]
   \<and> iter_all [PList [PInt 1, PInt 2], PList [PStr ''x'', PStr ''y'']]
       = Inr [[PInt 1, PInt 2], [PStr ''x'', PStr ''y'']]
   \<and> (\<exists>variants' new.
         expand_variants scalar_str ''T''
           [(''variants'', PDict [(''_template'', PDict [(''_n'', PList [PInt 1, PInt 2]),
              (''_c'', PList [PStr ''x'', PStr ''y''])])])] = Inr variants'
       \<and> map fst variants' = new
       \<and> set new = {''T-1-x'', ''T-1-y'', ''T-2-x'', ''T-2-y''}
       \<and> distinct new
       \<and> length new = 2 * 2)"
  using variants_from_template [of
      "[(''variants'', PDict [(''_template'', PDict [(''_n'', PList [PInt 1, PInt 2]),
          (''_c'', PList [PStr ''x'', PStr ''y''])])])]"
      "[(''_template'', PDict [(''_n'', PList [PInt 1, PInt 2]),
          (''_c'', PList [PStr ''x'', PStr ''y''])])]"
      "[(''_n'', PList [PInt 1, PInt 2]), (''_c'', PList [PStr ''x'', PStr ''y''])]"
      "[[PInt 1, PInt 2], [PStr ''x'', PStr ''y'']]" scalar_str "''T''"]
  by (simp add: all_dicts_def startswith_underscore_def pop_def vitem_of_def insert_commute)
    (simp add: eval_nat_numeral)

text \<open>
  The claim as written fails when two tuples get the same name: an iterable of length 2
  with the same value twice gives one variant, not two.  And a name that is declared
  already is not made anew: with \<open>T-1\<close> declared, the template over \<open>[1, 2]\<close> adds the
  one variant \<open>T-2\<close> and fills \<open>T-1\<close>, which keeps its own parameter.
\<close>

theorem duplicate_values_one_variant_counterexample:
  "expand_variants scalar_str ''T''
     [(''variants'', PDict [(''_template'', PDict [(''_n'', PList [PInt 1, PInt 1])])])]
     = Inr [(''T-1'', PDict [(''n'', PInt 1)])]
   \<and> map length [[PInt 1, PInt 1]] = [2]
   \<and> length [(''T-1'', PDict [(''n'', PInt 1)])] \<noteq> prod_list [2]
   \<and> expand_variants scalar_str ''T''
     [(''variants'', PDict [(''T-1'', PDict [(''x'', PInt 7)]),
                            (''_template'', PDict [(''_n'', PList [PInt 1, PInt 2])])])]
     = Inr [(''T-1'', PDict [(''x'', PInt 7), (''n'', PInt 1)]),
            (''T-2'', PDict [(''n'', PInt 2)])]"
  by (simp add: expand_variants_def expand_tuple_def vitem_of_def pop_def
      startswith_underscore_def)

section \<open>Pattern-based defaults\<close>

lemmas defaults_defs = set_defaults_def apply_default_def entry_setdefault_def entry_of_def
  example_search_def update_def pop_def Let_def

text \<open>
  C8 (the code at a failing input).  The default \<open>keep\<close> is given by the patterns
  \<open>^entropy\<close> and \<open>^is_\<close> with the value \<open>false\<close>, as in the example of the source's
  comment.  The loop over the names runs once for each pattern, and for a boolean value
  every round sets the key in every entry, to the value or to its opposite: after the
  round of the first pattern no entry is without the key, so the later patterns change
  nothing.  The entry \<open>is_pe\<close>, which matches the second pattern only, ends with
  \<open>keep\<close> set to \<open>true\<close>, the opposite of the value, where the comment says that the
  boolean features are not kept.  With the pattern \<open>^is_\<close> alone it gets the value, and
  an entry that sets \<open>keep\<close> itself keeps what it has.
\<close>

theorem later_pattern_gets_opposite_value:
  "set_defaults example_search (\<lambda>v. Inl TypeError) [] True
     [(''defaults'', PDict [(''keep'', PDict [(''match'', PList [PStr ''^entropy'', PStr ''^is_'']),
                                               (''value'', PBool False)])]),
      (''entropy_x'', PDict []), (''is_pe'', PDict []), (''size'', PDict [])] None
   = Inr [(''entropy_x'', PDict [(''keep'', PBool False)]),
          (''is_pe'', PDict [(''keep'', PBool True)]),
          (''size'', PDict [(''keep'', PBool True)])]
   \<and> example_search (PStr ''^is_'') ''is_pe'' = Inr True
   \<and> set_defaults example_search (\<lambda>v. Inl TypeError) [] True
     [(''defaults'', PDict [(''keep'', PDict [(''match'', PList [PStr ''^is_'']),
                                               (''value'', PBool False)])]),
      (''entropy_x'', PDict [(''keep'', PBool False)]), (''is_pe'', PDict []), (''size'', PDict [])] None
   = Inr [(''entropy_x'', PDict [(''keep'', PBool False)]),
          (''is_pe'', PDict [(''keep'', PBool False)]),
          (''size'', PDict [(''keep'', PBool True)])]"
  by (simp add: defaults_defs)

end
